theory Spec2Isabelle
  imports Complex_Main "HOL-Library.AList"
begin

section \<open>Python values, exceptions and the host interpreter\<close>

text \<open>
  The module \<^verbatim>\<open>doopl/factory.py\<close> moves Python scalars into the cells of an
  engine tuple set. Of a scalar it only ever asks whether it is a \<^verbatim>\<open>str\<close>,
  what its exact type is, and what the builtins \<^verbatim>\<open>str\<close> and
  \<^verbatim>\<open>float\<close> make of it.
\<close>

datatype pyfloat = Fin real | PosInf | NegInf | NaN

datatype pyval =
    PStr string
  | PInt int
  | PFloat pyfloat
  | PUnicode string
  | PBool bool
  | PNone

datatype pytype = T_str | T_int | T_float | T_unicode | T_bool | T_NoneType

fun type_of :: "pyval \<Rightarrow> pytype" where
  "type_of (PStr s) = T_str"
| "type_of (PInt n) = T_int"
| "type_of (PFloat x) = T_float"
| "type_of (PUnicode s) = T_unicode"
| "type_of (PBool b) = T_bool"
| "type_of PNone = T_NoneType"

datatype exn =
    ValueError string
  | TypeError string
  | IndexError string
  | AttributeError string
  | UnicodeError string
  | RecursionError
  | EngineError string
  | NotRendered

text \<open>
  The interpreter is a parameter of the model: its major version
  (\<^verbatim>\<open>sys.version_info[0]\<close>), the builtins \<^verbatim>\<open>str\<close> and \<^verbatim>\<open>float\<close>,
  and \<^verbatim>\<open>.encode("utf-8")\<close> on a \<^verbatim>\<open>str\<close>. Each may raise.
\<close>

record interp =
  version_major :: nat
  str_of :: "pyval \<Rightarrow> exn + string"
  float_of :: "pyval \<Rightarrow> exn + pyfloat"
  encode_utf8 :: "string \<Rightarrow> exn + string"

text \<open>
  Calling a value: \<^verbatim>\<open>f(v)\<close>. None of the scalars above is callable, so the
  call raises \<^verbatim>\<open>TypeError\<close> whatever the callee is. (The builtin
  \<^verbatim>\<open>type\<close> is not a value of the model: where the source calls the builtin,
  the model uses \<open>type_of\<close>.) The messages are Python's without the
  quotation marks around the type's name.
\<close>

fun py_call :: "pyval \<Rightarrow> pyval \<Rightarrow> exn + pytype" where
  "py_call (PStr s) v = Inl (TypeError ''str object is not callable'')"
| "py_call (PInt n) v = Inl (TypeError ''int object is not callable'')"
| "py_call (PFloat x) v = Inl (TypeError ''float object is not callable'')"
| "py_call (PUnicode s) v = Inl (TypeError ''unicode object is not callable'')"
| "py_call (PBool b) v = Inl (TypeError ''bool object is not callable'')"
| "py_call PNone v = Inl (TypeError ''NoneType object is not callable'')"

subsection \<open>A sample interpreter\<close>

text \<open>
  A Python 3 interpreter on the values the examples use: \<^verbatim>\<open>str\<close> of an
  \<^verbatim>\<open>int\<close> is its decimal numeral, of a nonzero integral \<^verbatim>\<open>float\<close>
  below \<open>10^16\<close> in magnitude the numeral followed by \<^verbatim>\<open>.0\<close>, of the
  infinities and the booleans their names. Where the rendering is not
  given here the sample raises \<open>NotRendered\<close>.
\<close>

definition digit_char :: "nat \<Rightarrow> char" where
  "digit_char d = ''0123456789'' ! d"

fun str_nat :: "nat \<Rightarrow> string" where
  "str_nat n = (if n < 10 then [digit_char n] else str_nat (n div 10) @ [digit_char (n mod 10)])"

declare str_nat.simps [simp del]

definition str_int :: "int \<Rightarrow> string" where
  "str_int i = (if i < 0 then CHR ''-'' # str_nat (nat (- i)) else str_nat (nat i))"

definition str_float :: "pyfloat \<Rightarrow> exn + string" where
  "str_float x =
     (case x of
        PosInf \<Rightarrow> Inr ''inf''
      | NegInf \<Rightarrow> Inr ''-inf''
      | NaN \<Rightarrow> Inr ''nan''
      | Fin r \<Rightarrow>
          (if r = of_int \<lfloor>r\<rfloor> \<and> \<bar>r\<bar> < 10 ^ 16 \<and> r \<noteq> 0
           then Inr (str_int \<lfloor>r\<rfloor> @ ''.0'')
           else Inl NotRendered))"

definition str3 :: "pyval \<Rightarrow> exn + string" where
  "str3 v =
     (case v of
        PStr s \<Rightarrow> Inr s
      | PInt n \<Rightarrow> Inr (str_int n)
      | PFloat x \<Rightarrow> str_float x
      | PUnicode s \<Rightarrow> Inr s
      | PBool b \<Rightarrow> Inr (if b then ''True'' else ''False'')
      | PNone \<Rightarrow> Inr ''None'')"

definition float3 :: "pyval \<Rightarrow> exn + pyfloat" where
  "float3 v =
     (case v of
        PInt n \<Rightarrow> (if \<bar>n\<bar> \<le> 2 ^ 53 then Inr (Fin (of_int n)) else Inl NotRendered)
      | PFloat x \<Rightarrow> Inr x
      | PBool b \<Rightarrow> Inr (Fin (if b then 1 else 0))
      | PNone \<Rightarrow> Inl (TypeError ''float() argument must be a string or a real number'')
      | PStr s \<Rightarrow> Inl NotRendered
      | PUnicode s \<Rightarrow> Inl NotRendered)"

definition python3 :: interp where
  "python3 = \<lparr> version_major = 3, str_of = str3, float_of = float3, encode_utf8 = Inr \<rparr>"

section \<open>The data source: \<^verbatim>\<open>MyDataSource.read\<close>\<close>

definition OPL_INTEGER :: nat where "OPL_INTEGER = 1"
definition OPL_FLOAT :: nat where "OPL_FLOAT = 2"
definition OPL_STRING :: nat where "OPL_STRING = 3"

text \<open>
  The calls the adapter makes on the engine's tuple set and on the cell
  array, in the order made. The engine's own work inside a call is not
  part of the repository; the model records the call and its arguments.
\<close>

datatype ts_call =
    SetIntColumnValues nat "pyval list" nat
  | SetNumColumnValues nat "pyval list" nat
  | SetStringColumnValues nat "string list" nat
  | FillTupleHash
  | IloTupleCellArray nat
  | SetStringValue nat string
  | SetNumValue nat pyfloat
  | Commit bool
  | Commit2HashTable bool
  | FillColumns
  | CellsEnd

type_synonym trace = "ts_call list"

text \<open>
  \<^verbatim>\<open>addCell(cells, index, f, v)\<close> (lines 79-90): the one call it makes on
  \<^verbatim>\<open>cells\<close>, or the exception.
\<close>

definition addCell :: "interp \<Rightarrow> nat \<Rightarrow> nat \<Rightarrow> pyval \<Rightarrow> exn + ts_call" where
  "addCell I index f v =
     (if f = OPL_STRING then
        (case v of
           PStr s \<Rightarrow> Inr (SetStringValue index s)
         | _ \<Rightarrow>
           (if type_of v \<in> {T_int, T_float} then
              (case str_of I v of Inl e \<Rightarrow> Inl e | Inr s \<Rightarrow> Inr (SetStringValue index s))
            else if version_major I = 2 \<and> type_of v = T_unicode then
              (case str_of I v of
                 Inl e \<Rightarrow> Inl e
               | Inr s \<Rightarrow>
                   (case encode_utf8 I s of
                      Inl e \<Rightarrow> Inl e
                    | Inr b \<Rightarrow> Inr (SetStringValue index b)))
            else
              (case str_of I v of Inl e \<Rightarrow> Inl e | Inr s \<Rightarrow> Inr (SetStringValue index s))))
      else
        (case float_of I v of Inl e \<Rightarrow> Inl e | Inr x \<Rightarrow> Inr (SetNumValue index x)))"

text \<open>
  The string coercion of \<^verbatim>\<open>fillTupleSet\<close> (lines 101-110). The enclosing
  loop is \<^verbatim>\<open>for i, type in enumerate(fields)\<close>: inside
  \<^verbatim>\<open>fillTupleSet\<close> the name \<^verbatim>\<open>type\<close> is the loop variable, the
  column kind, and \<^verbatim>\<open>type(v)\<close> calls that integer. \<open>ty\<close> is the
  column kind.
\<close>

fun coerce_strings :: "interp \<Rightarrow> nat \<Rightarrow> pyval list \<Rightarrow> string list \<Rightarrow> exn + string list" where
  "coerce_strings I ty [] values = Inr values"
| "coerce_strings I ty (v # vs) values =
     (case v of
        PStr s \<Rightarrow> coerce_strings I ty vs (values @ [s])
      | _ \<Rightarrow>
        (case py_call (PInt (int ty)) v of
           Inl e \<Rightarrow> Inl e
         | Inr t \<Rightarrow>
             (if t \<in> {T_int, T_float} then
                (case str_of I v of
                   Inl e \<Rightarrow> Inl e
                 | Inr s \<Rightarrow> coerce_strings I ty vs (values @ [s]))
              else if version_major I = 2 \<and> type_of v = T_unicode then
                (case str_of I v of
                   Inl e \<Rightarrow> Inl e
                 | Inr s \<Rightarrow>
                     (case encode_utf8 I s of
                        Inl e \<Rightarrow> Inl e
                      | Inr b \<Rightarrow> coerce_strings I ty vs (values @ [b])))
              else
                (case str_of I v of
                   Inl e \<Rightarrow> Inl e
                 | Inr s \<Rightarrow> coerce_strings I ty vs (values @ [s])))))"

text \<open>
  The loop of \<^verbatim>\<open>fillTupleSet\<close> over \<^verbatim>\<open>enumerate(fields)\<close> (lines 94-112),
  from index \<open>i\<close> on. \<^verbatim>\<open>bycolumn[i]\<close> raises \<^verbatim>\<open>IndexError\<close> out of
  range.
\<close>

fun fill_columns :: "interp \<Rightarrow> pyval list list \<Rightarrow> nat \<Rightarrow> nat \<Rightarrow> nat list \<Rightarrow> trace \<Rightarrow> (exn + unit) \<times> trace" where
  "fill_columns I bycolumn sz i [] tr = (Inr (), tr)"
| "fill_columns I bycolumn sz i (ty # rest) tr =
     (if i < length bycolumn then
        (let col = bycolumn ! i in
         if ty = OPL_INTEGER then
           fill_columns I bycolumn sz (Suc i) rest (tr @ [SetIntColumnValues i col sz])
         else if ty = OPL_FLOAT then
           fill_columns I bycolumn sz (Suc i) rest (tr @ [SetNumColumnValues i col sz])
         else
           (case coerce_strings I ty col [] of
              Inl e \<Rightarrow> (Inl e, tr)
            | Inr values \<Rightarrow>
                fill_columns I bycolumn sz (Suc i) rest (tr @ [SetStringColumnValues i values sz])))
      else (Inl (IndexError ''list index out of range''), tr))"

text \<open>
  \<^verbatim>\<open>fillTupleSet(set, values)\<close> (lines 92-113). \<^verbatim>\<open>fields\<close> and
  \<^verbatim>\<open>bycolumn\<close> are the variables of the enclosing \<^verbatim>\<open>read\<close>.
\<close>

definition fillTupleSet :: "interp \<Rightarrow> nat list \<Rightarrow> pyval list list \<Rightarrow> trace \<Rightarrow> (exn + unit) \<times> trace" where
  "fillTupleSet I flds bycolumn tr =
     (case bycolumn of
        [] \<Rightarrow> (Inl (IndexError ''list index out of range''), tr)
      | c0 # _ \<Rightarrow>
          (case fill_columns I bycolumn (length c0) 0 flds tr of
             (Inl e, tr') \<Rightarrow> (Inl e, tr')
           | (Inr u, tr') \<Rightarrow> (Inr (), tr' @ [FillTupleHash])))"

text \<open>
  The inner loop of the row path, \<^verbatim>\<open>for (i, t) in enumerate(v): addCell(cells, i, fields[i], t)\<close>
  (lines 129-130), from index \<open>i\<close> on. \<^verbatim>\<open>fields[i]\<close> raises
  \<^verbatim>\<open>IndexError\<close> when the row is longer than the schema.
\<close>

fun add_cells :: "interp \<Rightarrow> nat list \<Rightarrow> nat \<Rightarrow> pyval list \<Rightarrow> trace \<Rightarrow> (exn + unit) \<times> trace" where
  "add_cells I flds i [] tr = (Inr (), tr)"
| "add_cells I flds i (t # ts) tr =
     (if i < length flds then
        (case addCell I i (flds ! i) t of
           Inl e \<Rightarrow> (Inl e, tr)
         | Inr c \<Rightarrow> add_cells I flds (Suc i) ts (tr @ [c]))
      else (Inl (IndexError ''list index out of range''), tr))"

text \<open>
  \<^verbatim>\<open>commitMethod = set.commit if hasKey is True else set.commit2HashTable\<close>
  (line 126), called as \<^verbatim>\<open>commitMethod(cells, False)\<close>.
\<close>

definition commitMethod :: "bool \<Rightarrow> bool \<Rightarrow> ts_call" where
  "commitMethod hasKey flag = (if hasKey then Commit flag else Commit2HashTable flag)"

text \<open>The outer loop \<^verbatim>\<open>for v in value\<close> (lines 128-131).\<close>

fun commit_rows :: "interp \<Rightarrow> nat list \<Rightarrow> bool \<Rightarrow> pyval list list \<Rightarrow> trace \<Rightarrow> (exn + unit) \<times> trace" where
  "commit_rows I flds hasKey [] tr = (Inr (), tr)"
| "commit_rows I flds hasKey (v # vs) tr =
     (case add_cells I flds 0 v tr of
        (Inl e, tr') \<Rightarrow> (Inl e, tr')
      | (Inr u, tr') \<Rightarrow> commit_rows I flds hasKey vs (tr' @ [commitMethod hasKey False]))"

text \<open>
  What \<^verbatim>\<open>read\<close> is given for one input: a Python \<^verbatim>\<open>list\<close> of rows,
  a pandas data frame (its columns, labelled, in order), or any other
  iterable of rows.
\<close>

datatype input_value =
    RowList "pyval list list"
  | DataFrame "(string \<times> pyval list) list"
  | RowIterable "pyval list list"

text \<open>
  What the engine reports of the target set's schema: the column kinds
  (\<^verbatim>\<open>schema._getColumnTypes()\<close>) and \<^verbatim>\<open>schema.hasKey()\<close>, a Python
  \<^verbatim>\<open>bool\<close> (the code tests it with \<^verbatim>\<open>is True\<close> and \<^verbatim>\<open>is False\<close>).
\<close>

record set_schema =
  column_types :: "nat list"
  has_key :: bool

text \<open>
  \<^verbatim>\<open>zip(*rows)\<close>: the transpose, cut to the shortest row; empty for no
  rows.
\<close>

definition zip_star :: "'a list list \<Rightarrow> 'a list list" where
  "zip_star rows =
     (case rows of
        [] \<Rightarrow> []
      | r # rs \<Rightarrow> map (\<lambda>j. map (\<lambda>row. row ! j) rows) [0..<fold min (map length rs) (length r)])"

text \<open>
  The body of the loop of \<^verbatim>\<open>read\<close> for one input, after the set and
  its schema have been fetched (lines 115-135). For a frame,
  \<^verbatim>\<open>[value[n].tolist() for n in value.columns]\<close> is built before any call
  on the set; under a repeated label \<^verbatim>\<open>value[n]\<close> is a frame, which has no
  \<^verbatim>\<open>tolist\<close>.
\<close>

definition read_input :: "interp \<Rightarrow> set_schema \<Rightarrow> input_value \<Rightarrow> trace \<Rightarrow> (exn + unit) \<times> trace" where
  "read_input I schema v tr =
     (let flds = column_types schema; fieldsSize = length flds in
      case v of
        RowList rows \<Rightarrow> fillTupleSet I flds (zip_star rows) tr
      | DataFrame cols \<Rightarrow>
          if distinct (map fst cols) then fillTupleSet I flds (map snd cols) tr
          else (Inl (AttributeError ''DataFrame object has no attribute tolist''), tr)
      | RowIterable rows \<Rightarrow>
          (let hasKey = has_key schema in
           case commit_rows I flds hasKey rows (tr @ [IloTupleCellArray fieldsSize]) of
             (Inl e, tr') \<Rightarrow> (Inl e, tr')
           | (Inr u, tr') \<Rightarrow>
               (Inr (), (if \<not> hasKey then tr' @ [FillColumns] else tr') @ [CellsEnd])))"

text \<open>
  The loop of \<^verbatim>\<open>read\<close> over the inputs (line 73). \<open>schema_for\<close> is
  what \<^verbatim>\<open>dh._prepareSet(name).getSchema()\<close> gives for a name.
\<close>

fun read_inputs :: "interp \<Rightarrow> (string \<Rightarrow> set_schema) \<Rightarrow> (string \<times> input_value) list \<Rightarrow> (string \<times> trace) list \<Rightarrow> (exn + unit) \<times> (string \<times> trace) list" where
  "read_inputs I schema_for [] out = (Inr (), out)"
| "read_inputs I schema_for ((name, v) # rest) out =
     (case read_input I (schema_for name) v [] of
        (Inl e, tr) \<Rightarrow> (Inl e, out @ [(name, tr)])
      | (Inr u, tr) \<Rightarrow> read_inputs I schema_for rest (out @ [(name, tr)]))"

section \<open>The model session: \<^verbatim>\<open>OplModel\<close>\<close>

subsection \<open>The engine\<close>

datatype data_source =
    PythonSource "(string \<times> input_value) list"
  | FileSource string

text \<open>
  The calls \<^verbatim>\<open>OplModel\<close> makes on the engine (\<^verbatim>\<open>self._opl\<close>, its
  settings, its CP and CPLEX objects), in the order made.
\<close>

datatype call =
    IsGenerated
  | SetSkipWarnNeverUsedElements bool
  | IloOplDataSource data_source
  | AddDataSource data_source
  | Generate
  | IsUsingCP
  | CP_solve
  | Cplex_solve
  | PostProcess
  | HasProfiler
  | PrintReport
  | CP_exportModel string
  | Cplex_exportModel string
  | GetElement string
  | GetQualityEnumSize
  | GetQualityEnumName nat
  | GetQuality nat
  | CplexGet string
  | IsMIP

text \<open>
  Modelled from the spec: a schema is an "ordered sequence of column
  kinds, optionally with nested sub-schemas (composite/tuple columns)".
  The schema class of the binding \<^verbatim>\<open>doopl.opl\<close> is not among the sources.
  A column is its name and, for a tuple column, the sub-schema.
\<close>

datatype schema = Schema (schema_name: string) (schema_columns: "(string \<times> schema option) list")

text \<open>
  Modelled from the spec: the accessors \<^verbatim>\<open>getSize\<close>,
  \<^verbatim>\<open>getColumnName\<close>, \<^verbatim>\<open>_isTuple\<close>, \<^verbatim>\<open>_getTupleColumn\<close> and
  \<^verbatim>\<open>_hasSubTuple\<close> of the binding's schema class, read off the sequence
  of columns. \<^verbatim>\<open>_getTupleColumn(i)\<close> has no result (the engine raises)
  where column \<open>i\<close> is not a tuple column of the schema.
\<close>

definition getSize :: "schema \<Rightarrow> nat" where
  "getSize sch = length (schema_columns sch)"

definition getColumnName :: "schema \<Rightarrow> nat \<Rightarrow> string" where
  "getColumnName sch i = fst (schema_columns sch ! i)"

definition isTuple :: "schema \<Rightarrow> nat \<Rightarrow> bool" where
  "isTuple sch i = (i < getSize sch \<and> snd (schema_columns sch ! i) \<noteq> None)"

definition getTupleColumn :: "schema \<Rightarrow> nat \<Rightarrow> schema option" where
  "getTupleColumn sch i = (if i < getSize sch then snd (schema_columns sch ! i) else None)"

definition hasSubTuple :: "schema \<Rightarrow> bool" where
  "hasSubTuple sch = list_ex (\<lambda>c. snd c \<noteq> None) (schema_columns sch)"

text \<open>
  An engine tuple set as \<^verbatim>\<open>__getTupleSet\<close> reads it: its schema, the
  column kinds, and the three column accessors.
\<close>

record tuple_set =
  ts_schema :: schema
  ts_column_types :: "nat list"
  getIntColumnValues :: "nat \<Rightarrow> pyval list"
  getNumColumnValues :: "nat \<Rightarrow> pyval list"
  getSymbolColumnValues :: "nat \<Rightarrow> pyval list"

text \<open>A model element, as \<^verbatim>\<open>getElement(name)\<close> returns it.\<close>

record element =
  isDiscreteDataCollection :: bool
  collection_isTupleSet :: bool
  isDecisionExpression :: bool
  asNum :: pyfloat
  asTupleSet :: tuple_set

text \<open>
  What the engine answers. \<open>raises c = Some m\<close>: the call \<open>c\<close> raises an
  exception with message \<open>m\<close>. \<open>elements name = None\<close>: the model has no
  element of that name, and \<^verbatim>\<open>getElement\<close> raises.
\<close>

record engine =
  raises :: "call \<Rightarrow> string option"
  isUsingCP :: bool
  solve_result :: bool
  elements :: "string \<Rightarrow> element option"
  qualityEnumSize :: nat
  qualityEnumName :: "nat \<Rightarrow> string"
  quality :: "nat \<Rightarrow> pyfloat"
  cplex_value :: "string \<Rightarrow> pyval"
  isMIP :: bool

subsection \<open>The session state\<close>

text \<open>
  The fields of \<^verbatim>\<open>OplModel\<close> (\<^verbatim>\<open>_inputs\<close>, \<^verbatim>\<open>_datfiles\<close>,
  \<^verbatim>\<open>_cplex_quality\<close>, \<^verbatim>\<open>_cplex_stats\<close>), the two flags of the engine
  the code tests (\<^verbatim>\<open>isGenerated()\<close>, \<^verbatim>\<open>hasProfiler()\<close>), the engine
  calls made so far and the lines printed. The per-schema cache
  \<^verbatim>\<open>_fieldDict\<close> only saves calls of \<^verbatim>\<open>_getColumnTypes\<close> and is left out.
\<close>

record session =
  inputs :: "(string \<times> input_value) list"
  datfiles :: "string list"
  cplex_quality_cache :: "(string \<times> pyfloat) list option"
  cplex_stats_cache :: "(string \<times> pyval) list option"
  is_generated :: bool
  has_profiler :: bool
  calls :: "call list"
  printed :: "string list"

text \<open>
  Modelled from the spec: "generation is idempotent-guarded", the session
  state "generated" is entered by the engine's generation step. The
  engine's \<^verbatim>\<open>generate()\<close> and \<^verbatim>\<open>isGenerated()\<close> are not among the
  sources: once \<^verbatim>\<open>generate()\<close> has returned, \<^verbatim>\<open>isGenerated()\<close> is
  true; no other call of this model changes the flag.
\<close>

definition engine_effect :: "call \<Rightarrow> session \<Rightarrow> session" where
  "engine_effect c s = (case c of Generate \<Rightarrow> s\<lparr>is_generated := True\<rparr> | _ \<Rightarrow> s)"

text \<open>One engine call: recorded, then it raises or takes effect.\<close>

definition engine_call :: "engine \<Rightarrow> call \<Rightarrow> session \<Rightarrow> (exn + unit) \<times> session" where
  "engine_call E c s =
     (let s' = s\<lparr>calls := calls s @ [c]\<rparr> in
      case raises E c of
        Some m \<Rightarrow> (Inl (EngineError m), s')
      | None \<Rightarrow> (Inr (), engine_effect c s'))"

text \<open>Sequencing: an exception ends the computation.\<close>

definition and_then :: "(exn + 'a) \<times> session \<Rightarrow> ('a \<Rightarrow> session \<Rightarrow> (exn + 'b) \<times> session) \<Rightarrow> (exn + 'b) \<times> session" where
  "and_then r k = (case r of (Inl e, s) \<Rightarrow> (Inl e, s) | (Inr a, s) \<Rightarrow> k a s)"

text \<open>\<^verbatim>\<open>str(e)\<close> of an exception, as \<^verbatim>\<open>print(e)\<close> shows it.\<close>

fun message :: "exn \<Rightarrow> string" where
  "message (ValueError m) = m"
| "message (TypeError m) = m"
| "message (IndexError m) = m"
| "message (AttributeError m) = m"
| "message (UnicodeError m) = m"
| "message RecursionError = ''maximum recursion depth exceeded''"
| "message (EngineError m) = m"
| "message NotRendered = []"

subsection \<open>\<^verbatim>\<open>__generate\<close>, \<^verbatim>\<open>__solve\<close>, \<^verbatim>\<open>run\<close>, \<^verbatim>\<open>export_model\<close>\<close>

text \<open>The loop \<^verbatim>\<open>for v in self._datfiles\<close> (lines 272-274).\<close>

fun attach_datfiles :: "engine \<Rightarrow> string list \<Rightarrow> session \<Rightarrow> (exn + unit) \<times> session" where
  "attach_datfiles E [] s = (Inr (), s)"
| "attach_datfiles E (v # vs) s =
     (case engine_call E (IloOplDataSource (FileSource v)) s of
        (Inl e, s1) \<Rightarrow> (Inl e, s1)
      | (Inr u, s1) \<Rightarrow>
          (case engine_call E (AddDataSource (FileSource v)) s1 of
             (Inl e, s2) \<Rightarrow> (Inl e, s2)
           | (Inr u', s2) \<Rightarrow> attach_datfiles E vs s2))"

text \<open>The body of the \<^verbatim>\<open>try\<close> of \<^verbatim>\<open>__generate\<close> (lines 265-276).\<close>

definition generate_try :: "engine \<Rightarrow> session \<Rightarrow> (exn + bool) \<times> session" where
  "generate_try E s =
     and_then (engine_call E IsGenerated s) (\<lambda>_ s0.
       if is_generated s0 = False then
         and_then (engine_call E (SetSkipWarnNeverUsedElements True) s0) (\<lambda>_ s1.
         and_then
           (if length (inputs s1) \<noteq> 0 then
              and_then (engine_call E (IloOplDataSource (PythonSource (inputs s1))) s1) (\<lambda>_ s1'.
                engine_call E (AddDataSource (PythonSource (inputs s1))) s1')
            else (Inr (), s1)) (\<lambda>_ s2.
         and_then
           (if length (datfiles s2) \<noteq> 0 then attach_datfiles E (datfiles s2) s2
            else (Inr (), s2)) (\<lambda>_ s3.
         and_then (engine_call E Generate s3) (\<lambda>_ s4. (Inr True, s4)))))
       else (Inr True, s0))"

text \<open>
  \<^verbatim>\<open>__generate\<close> (lines 263-279): \<^verbatim>\<open>except Exception as e: print(e); return False\<close>.
\<close>

definition generate :: "engine \<Rightarrow> session \<Rightarrow> bool \<times> session" where
  "generate E s =
     (case generate_try E s of
        (Inl e, s') \<Rightarrow> (False, s'\<lparr>printed := printed s' @ [message e]\<rparr>)
      | (Inr b, s') \<Rightarrow> (b, s'))"

text \<open>\<^verbatim>\<open>__solve\<close> (lines 204-208).\<close>

definition solve :: "engine \<Rightarrow> session \<Rightarrow> (exn + bool) \<times> session" where
  "solve E s =
     and_then (engine_call E IsUsingCP s) (\<lambda>_ s1.
       if isUsingCP E then
         and_then (engine_call E CP_solve s1) (\<lambda>_ s2. (Inr (solve_result E), s2))
       else
         and_then (engine_call E Cplex_solve s1) (\<lambda>_ s2. (Inr (solve_result E), s2)))"

text \<open>\<^verbatim>\<open>run\<close> (lines 282-296).\<close>

definition run :: "engine \<Rightarrow> session \<Rightarrow> (exn + bool) \<times> session" where
  "run E s =
     (case generate E s of
        (ok, s1) \<Rightarrow>
          if ok then
            and_then (solve E s1) (\<lambda>r s2.
              if r = False then (Inr False, s2)
              else
                and_then (engine_call E PostProcess s2) (\<lambda>_ s3.
                and_then (engine_call E HasProfiler s3) (\<lambda>_ s4.
                  if has_profiler s4 then
                    and_then (engine_call E PrintReport s4) (\<lambda>_ s5. (Inr True, s5))
                  else (Inr True, s4))))
          else (Inl (ValueError ''model was not generated''), s1))"

text \<open>
  \<^verbatim>\<open>export_model\<close> (lines 471-486). \<^verbatim>\<open>name[-3:]\<close> is the last three
  characters, the whole name when it is shorter.
  \<^verbatim>\<open>raise("...")\<close> raises a \<^verbatim>\<open>TypeError\<close>: a string is not an exception.
\<close>

definition export_model :: "engine \<Rightarrow> string \<Rightarrow> session \<Rightarrow> (exn + unit) \<times> session" where
  "export_model E name s =
     (let extension = drop (length name - 3) name in
      if extension \<notin> {''sav'', ''.lp'', ''cpo'', ''mps''} then
        (Inl (TypeError ''exceptions must derive from BaseException''), s)
      else
        (case generate E s of
           (ok, s1) \<Rightarrow>
             if ok then
               and_then (engine_call E IsUsingCP s1) (\<lambda>_ s2.
                 if isUsingCP E then engine_call E (CP_exportModel name) s2
                 else engine_call E (Cplex_exportModel name) s2)
             else (Inl (TypeError ''exceptions must derive from BaseException''), s1)))"

subsection \<open>\<^verbatim>\<open>get_kpi\<close>, \<^verbatim>\<open>_is_tuple_set\<close>, \<^verbatim>\<open>get_table\<close>\<close>

text \<open>\<^verbatim>\<open>self._opl.getElement(name)\<close>.\<close>

definition getElement :: "engine \<Rightarrow> string \<Rightarrow> session \<Rightarrow> (exn + element) \<times> session" where
  "getElement E name s =
     and_then (engine_call E (GetElement name) s) (\<lambda>_ s1.
       case elements E name of
         None \<Rightarrow> (Inl (EngineError (''no element '' @ name)), s1)
       | Some elt \<Rightarrow> (Inr elt, s1))"

text \<open>\<^verbatim>\<open>get_kpi\<close> (lines 224-238); the \<^verbatim>\<open>except:\<close> is bare.\<close>

definition get_kpi :: "engine \<Rightarrow> string \<Rightarrow> session \<Rightarrow> (exn + pyfloat) \<times> session" where
  "get_kpi E name s =
     (case getElement E name s of
        (Inl e, s1) \<Rightarrow> (Inl (ValueError (name @ '' is not a valid OPL KPI'')), s1)
      | (Inr elt, s1) \<Rightarrow>
          if isDecisionExpression elt then (Inr (asNum elt), s1)
          else (Inl (ValueError (name @ '' is not a valid OPL KPI'')), s1))"

text \<open>\<^verbatim>\<open>_is_tuple_set\<close> (lines 565-575).\<close>

definition is_tuple_set :: "engine \<Rightarrow> string \<Rightarrow> session \<Rightarrow> (exn + bool) \<times> session" where
  "is_tuple_set E name s =
     (case getElement E name s of
        (Inl e, s1) \<Rightarrow>
          (Inl (ValueError (''Table '' @ name @ '' does not exist in the OPL model.'')), s1)
      | (Inr elt, s1) \<Rightarrow>
          if isDiscreteDataCollection elt then
            if isDiscreteDataCollection elt then
              if collection_isTupleSet elt then (Inr True, s1) else (Inr False, s1)
            else (Inr False, s1)
          else (Inr False, s1))"

text \<open>
  The inner function \<^verbatim>\<open>get_names(schem)\<close> of \<^verbatim>\<open>__getTupleSet\<close> (lines
  450-465). \<open>schema\<close> is the variable of the enclosing \<^verbatim>\<open>__getTupleSet\<close>,
  the schema of the tuple set being read, which line 458 uses:
  \<^verbatim>\<open>sub = schema._getTupleColumn(i)\<close>. \<open>recur\<close> is the recursive call.
\<close>

fun names_loop :: "(schema \<Rightarrow> exn + string list) \<Rightarrow> schema \<Rightarrow> schema \<Rightarrow> nat list \<Rightarrow> string list \<Rightarrow> exn + string list" where
  "names_loop recur schema schem [] names = Inr names"
| "names_loop recur schema schem (i # js) names =
     (if isTuple schem i then
        (case getTupleColumn schema i of
           None \<Rightarrow> Inl (EngineError ''not a tuple column'')
         | Some sub \<Rightarrow>
             (case recur sub of
                Inl e \<Rightarrow> Inl e
              | Inr subNames \<Rightarrow>
                  (let subName = schema_name sub in
                   names_loop recur schema schem js
                     (names @ map (\<lambda>n. subName @ ''.'' @ n) subNames))))
      else names_loop recur schema schem js (names @ [getColumnName schem i]))"

text \<open>
  The first argument is the number of nested calls the interpreter's
  recursion limit still allows; beyond it Python raises
  \<^verbatim>\<open>RecursionError\<close>.
\<close>

primrec get_names :: "nat \<Rightarrow> schema \<Rightarrow> schema \<Rightarrow> exn + string list" where
  "get_names 0 schema schem = Inl RecursionError"
| "get_names (Suc d) schema schem =
     (if hasSubTuple schem = False then
        Inr (map (getColumnName schem) [0..<getSize schem])
      else names_loop (get_names d schema) schema schem [0..<getSize schem] [])"

text \<open>
  The labels as the specification words them: "recursively flattening
  composite/nested schema column names with a "outer.inner" naming
  convention": a column of a nested tuple column is labelled with the
  sub-tuple's name, a dot and the inner column's flattened name; the other
  columns keep their names.
\<close>

fun spec_names :: "schema \<Rightarrow> string list" where
  "spec_names (Schema n cols) =
     concat (map (\<lambda>c. case snd c of
                         None \<Rightarrow> [fst c]
                       | Some sub \<Rightarrow> map (\<lambda>x. schema_name sub @ ''.'' @ x) (spec_names sub)) cols)"

datatype table = Rows "pyval list list" | Frame "string list" "pyval list list"

text \<open>
  \<^verbatim>\<open>__getTupleSet\<close> (lines 429-469). \<^verbatim>\<open>pd.DataFrame(rep, columns=names)\<close>
  is the frame of the rows under the labels; what pandas checks of the two
  is not modelled.
\<close>

definition getTupleSet :: "nat \<Rightarrow> tuple_set \<Rightarrow> bool \<Rightarrow> exn + table" where
  "getTupleSet depth tset as_pandas =
     (let schema = ts_schema tset;
          flds = ts_column_types tset;
          columns = map (\<lambda>(i, ty).
                      if ty = OPL_INTEGER then getIntColumnValues tset i
                      else if ty = OPL_FLOAT then getNumColumnValues tset i
                      else getSymbolColumnValues tset i) (enumerate 0 flds);
          rep = zip_star columns
      in if as_pandas = False then Inr (Rows rep)
         else (case get_names depth schema schema of
                 Inl e \<Rightarrow> Inl e
               | Inr names \<Rightarrow> Inr (Frame names rep)))"

text \<open>\<^verbatim>\<open>get_table\<close> (lines 417-426).\<close>

definition get_table :: "nat \<Rightarrow> engine \<Rightarrow> string \<Rightarrow> bool \<Rightarrow> session \<Rightarrow> (exn + table) \<times> session" where
  "get_table depth E name as_pandas s =
     and_then (is_tuple_set E name s) (\<lambda>b s1.
       if b then
         and_then (getElement E name s1) (\<lambda>elt s2.
           (getTupleSet depth (asTupleSet elt) as_pandas, s2))
       else (Inl (ValueError (name @ '' is not a TupleSet'')), s1))"

subsection \<open>\<^verbatim>\<open>_get_cplex_quality\<close> and \<^verbatim>\<open>_get_cplex_stats\<close>\<close>

text \<open>
  The loop \<^verbatim>\<open>for i in range(size)\<close> of \<^verbatim>\<open>_get_cplex_quality\<close> (lines
  351-356). \<^verbatim>\<open>ret\<close> is an \<^verbatim>\<open>OrderedDict\<close>: an assignment to a key it
  holds replaces the value in place, a new key goes last.
\<close>

fun quality_loop :: "engine \<Rightarrow> nat list \<Rightarrow> (string \<times> pyfloat) list \<Rightarrow> session \<Rightarrow> (exn + (string \<times> pyfloat) list) \<times> session" where
  "quality_loop E [] ret s = (Inr ret, s)"
| "quality_loop E (i # js) ret s =
     (if i \<noteq> 10 \<and> i \<noteq> 11 then
        (case engine_call E (GetQualityEnumName i) s of
           (Inl e, s1) \<Rightarrow> (Inl e, s1)
         | (Inr u, s1) \<Rightarrow>
             (case engine_call E (GetQuality i) s1 of
                (Inl e, s2) \<Rightarrow> (Inl e, s2)
              | (Inr u', s2) \<Rightarrow>
                  (let name = qualityEnumName E i; v = quality E i in
                   if v \<noteq> PosInf then quality_loop E js (AList.update name v ret) s2
                   else quality_loop E js ret s2)))
      else quality_loop E js ret s)"

text \<open>\<^verbatim>\<open>_get_cplex_quality\<close> (lines 342-358).\<close>

definition get_cplex_quality :: "engine \<Rightarrow> session \<Rightarrow> (exn + (string \<times> pyfloat) list) \<times> session" where
  "get_cplex_quality E s =
     (case cplex_quality_cache s of
        Some d \<Rightarrow> (Inr d, s)
      | None \<Rightarrow>
          and_then (engine_call E IsUsingCP s) (\<lambda>_ s1.
            if isUsingCP E then
              (Inl (ValueError ''Cannot CPLEX specific method use with CPO''), s1)
            else
              and_then (engine_call E GetQualityEnumSize s1) (\<lambda>_ s2.
              and_then (quality_loop E [0..<qualityEnumSize E] [] s2) (\<lambda>ret s3.
                (Inr ret, s3\<lparr>cplex_quality_cache := Some ret\<rparr>)))))"

text \<open>
  The statistics of \<^verbatim>\<open>_get_cplex_stats\<close>, each key with the method of
  the CPLEX object that gives its value (lines 379-408, and 411-413 for a
  MIP).
\<close>

definition stat_getters :: "(string \<times> string) list" where
  "stat_getters =
     [(''Niterations'', ''getNiterations''),
      (''NbarrierIterations'', ''getNbarrierIterations''),
      (''NsiftingIterations'', ''getNsiftingIterations''),
      (''NsiftingPhaseOneIterations'', ''getNsiftingPhaseOneIterations''),
      (''Ncols'', ''getNcols''),
      (''Nrows'', ''getNrows''),
      (''NQCs'', ''getNQCs''),
      (''NSOSs'', ''getNSOSs''),
      (''Nindicators'', ''getNindicators''),
      (''NLCs'', ''getNLCs''),
      (''NUCs'', ''getNUCs''),
      (''NNZs'', ''getNNZs''),
      (''NintVars'', ''getNintVars''),
      (''NbinVars'', ''getNbinVars''),
      (''NsemiContVars'', ''getNsemiContVars''),
      (''NsemiIntVars'', ''getNsemiIntVars''),
      (''BestObjValue'', ''getBestObjValue''),
      (''IncumbentNode'', ''getIncumbentNode''),
      (''NprimalSuperbasics'', ''getNprimalSuperbasics''),
      (''NdualSuperbasics'', ''getNdualSuperbasics''),
      (''NphaseOneIterations'', ''getNphaseOneIterations''),
      (''Nnodes'', ''getNnodes''),
      (''NnodesLeft'', ''getNnodesLeft''),
      (''NcrossPPush'', ''getNcrossPPush''),
      (''NcrossPExch'', ''getNcrossPExch''),
      (''NcrossDPush'', ''getNcrossDPush''),
      (''NcrossDExch'', ''getNcrossDExch''),
      (''isPrimalFeasible'', ''isPrimalFeasible''),
      (''isDualFeasible'', ''isDualFeasible''),
      (''CplexStatus'', ''getCplexStatus_asInt'')]"

definition mip_getters :: "(string \<times> string) list" where
  "mip_getters =
     [(''NMIPStarts'', ''getNMIPStarts''),
      (''MIPRelativeGap'', ''getMIPRelativeGap''),
      (''Cutoff'', ''getCutoff'')]"

text \<open>The assignments \<^verbatim>\<open>ret[key] = cplex.getter()\<close>, in order.\<close>

fun read_stats :: "engine \<Rightarrow> (string \<times> string) list \<Rightarrow> (string \<times> pyval) list \<Rightarrow> session \<Rightarrow> (exn + (string \<times> pyval) list) \<times> session" where
  "read_stats E [] ret s = (Inr ret, s)"
| "read_stats E ((key, getter) # rest) ret s =
     (case engine_call E (CplexGet getter) s of
        (Inl e, s1) \<Rightarrow> (Inl e, s1)
      | (Inr u, s1) \<Rightarrow> read_stats E rest (AList.update key (cplex_value E getter) ret) s1)"

text \<open>\<^verbatim>\<open>_get_cplex_stats\<close> (lines 368-415).\<close>

definition get_cplex_stats :: "engine \<Rightarrow> session \<Rightarrow> (exn + (string \<times> pyval) list) \<times> session" where
  "get_cplex_stats E s =
     (case cplex_stats_cache s of
        Some d \<Rightarrow> (Inr d, s)
      | None \<Rightarrow>
          and_then (engine_call E IsUsingCP s) (\<lambda>_ s1.
            if isUsingCP E then
              (Inl (ValueError ''Cannot CPLEX specific method use with CPO''), s1)
            else
              and_then (read_stats E stat_getters [] s1) (\<lambda>ret s2.
              and_then (engine_call E IsMIP s2) (\<lambda>_ s3.
              and_then
                (if isMIP E then read_stats E mip_getters ret s3 else (Inr ret, s3)) (\<lambda>ret' s4.
                (Inr ret', s4\<lparr>cplex_stats_cache := Some ret'\<rparr>))))))"

subsection \<open>Call sequences\<close>

text \<open>The engine calls made between two states of a session.\<close>

definition new_calls :: "session \<Rightarrow> session \<Rightarrow> call list" where
  "new_calls s s' = drop (length (calls s)) (calls s')"

text \<open>A sequence of engine calls, made in order up to the first that raises.\<close>

fun do_calls :: "engine \<Rightarrow> call list \<Rightarrow> session \<Rightarrow> (exn + unit) \<times> session" where
  "do_calls E [] s = (Inr (), s)"
| "do_calls E (c # cs) s =
     (case engine_call E c s of
        (Inl e, s') \<Rightarrow> (Inl e, s')
      | (Inr u, s') \<Rightarrow> do_calls E cs s')"

text \<open>
  The engine calls of \<^verbatim>\<open>__generate\<close> after its test of \<^verbatim>\<open>isGenerated()\<close>
  (lines 266-275): the setting, one data source made and added for the
  \<^verbatim>\<open>_inputs\<close> when there are any, one made and added per data file, then
  \<^verbatim>\<open>generate()\<close>.
\<close>

definition generation_calls :: "session \<Rightarrow> call list" where
  "generation_calls s =
     SetSkipWarnNeverUsedElements True #
     (if length (inputs s) \<noteq> 0
      then [IloOplDataSource (PythonSource (inputs s)), AddDataSource (PythonSource (inputs s))]
      else []) @
     concat (map (\<lambda>v. [IloOplDataSource (FileSource v), AddDataSource (FileSource v)]) (datfiles s)) @
     [Generate]"

text \<open>The calls that belong to model generation.\<close>

fun generation_call :: "call \<Rightarrow> bool" where
  "generation_call (SetSkipWarnNeverUsedElements b) = True"
| "generation_call (IloOplDataSource src) = True"
| "generation_call (AddDataSource src) = True"
| "generation_call Generate = True"
| "generation_call c = False"

text \<open>The \<^verbatim>\<open>return True\<close> that ends the \<^verbatim>\<open>try\<close> of \<^verbatim>\<open>__generate\<close>.\<close>

definition as_True :: "(exn + unit) \<times> session \<Rightarrow> (exn + bool) \<times> session" where
  "as_True r = (case r of (Inl e, s') \<Rightarrow> (Inl e, s') | (Inr u, s') \<Rightarrow> (Inr True, s'))"

subsection \<open>What a name resolves to\<close>

text \<open>
  A name resolves to a tuple-set element when \<^verbatim>\<open>getElement\<close> returns an
  element that is a discrete data collection and a tuple set; to a decision
  expression when it returns an element that is one.
\<close>

definition resolves_to_tuple_set :: "engine \<Rightarrow> string \<Rightarrow> bool" where
  "resolves_to_tuple_set E name =
     (raises E (GetElement name) = None \<and>
      (case elements E name of
         None \<Rightarrow> False
       | Some elt \<Rightarrow> isDiscreteDataCollection elt \<and> collection_isTupleSet elt))"

definition resolves_to_kpi :: "engine \<Rightarrow> string \<Rightarrow> bool" where
  "resolves_to_kpi E name =
     (raises E (GetElement name) = None \<and>
      (case elements E name of None \<Rightarrow> False | Some elt \<Rightarrow> isDecisionExpression elt))"

text \<open>
  The quality metrics \<^verbatim>\<open>_get_cplex_quality\<close> keeps: not index 10 or 11, and
  not \<^verbatim>\<open>float("inf")\<close>.
\<close>

definition kept :: "engine \<Rightarrow> nat \<Rightarrow> bool" where
  "kept E i = (i \<noteq> 10 \<and> i \<noteq> 11 \<and> quality E i \<noteq> PosInf)"

text \<open>
  What a first read of \<^verbatim>\<open>cplex_stats\<close> holds and the engine calls it makes
  (lines 375-413): every key with the value of its method, in the order of
  the assignments, the three MIP keys last when \<^verbatim>\<open>isMIP()\<close>.
\<close>

definition stats_snapshot :: "engine \<Rightarrow> (string \<times> pyval) list" where
  "stats_snapshot E =
     map (\<lambda>(k, g). (k, cplex_value E g)) (stat_getters @ (if isMIP E then mip_getters else []))"

definition stats_calls :: "engine \<Rightarrow> call list" where
  "stats_calls E =
     IsUsingCP # map (\<lambda>(k, g). CplexGet g) stat_getters @
     IsMIP # (if isMIP E then map (\<lambda>(k, g). CplexGet g) mip_getters else [])"

text \<open>
  What a first read of \<^verbatim>\<open>cplex_quality\<close> holds and the engine calls it
  makes (lines 345-356): the kept metrics assigned by name in index order.
\<close>

definition quality_snapshot :: "engine \<Rightarrow> (string \<times> pyfloat) list" where
  "quality_snapshot E =
     fold (\<lambda>i ret. if kept E i then AList.update (qualityEnumName E i) (quality E i) ret else ret)
       [0..<qualityEnumSize E] []"

definition quality_calls :: "engine \<Rightarrow> call list" where
  "quality_calls E =
     IsUsingCP # GetQualityEnumSize #
     concat (map (\<lambda>i. if i \<noteq> 10 \<and> i \<noteq> 11 then [GetQualityEnumName i, GetQuality i] else [])
       [0..<qualityEnumSize E])"

subsection \<open>Sessions and engines of the examples\<close>

text \<open>\<^verbatim>\<open>OplModel.__init__\<close> (lines 141-149), on a model not yet generated.\<close>

definition new_session :: session where
  "new_session =
     \<lparr> inputs = [], datfiles = [], cplex_quality_cache = None, cplex_stats_cache = None,
       is_generated = False, has_profiler = False, calls = [], printed = [] \<rparr>"

text \<open>\<^verbatim>\<open>set_input\<close> (lines 191-201); \<^verbatim>\<open>_inputs\<close> is an \<^verbatim>\<open>OrderedDict\<close>.\<close>

definition set_input :: "string \<Rightarrow> input_value option \<Rightarrow> session \<Rightarrow> session" where
  "set_input name v s =
     (case v of
        Some x \<Rightarrow> s\<lparr>inputs := AList.update name x (inputs s)\<rparr>
      | None \<Rightarrow> s\<lparr>datfiles := datfiles s @ [name]\<rparr>)"

text \<open>
  An engine on the CPLEX backend none of whose calls raises, whose solve
  succeeds, and whose model has no element; and the same engine with a
  \<^verbatim>\<open>generate()\<close> that raises.
\<close>

definition quiet_engine :: engine where
  "quiet_engine =
     \<lparr> raises = (\<lambda>c. None), isUsingCP = False, solve_result = True, elements = (\<lambda>n. None),
       qualityEnumSize = 0, qualityEnumName = (\<lambda>i. []), quality = (\<lambda>i. Fin 0),
       cplex_value = (\<lambda>g. PInt 0), isMIP = False \<rparr>"

definition failing_engine :: engine where
  "failing_engine = quiet_engine\<lparr>raises := (\<lambda>c. if c = Generate then Some ''no data'' else None)\<rparr>"

text \<open>The same engine when the data file \<open>more.dat\<close> cannot be opened.\<close>

definition missing_file_engine :: engine where
  "missing_file_engine =
     quiet_engine\<lparr>raises :=
       (\<lambda>c. if c = IloOplDataSource (FileSource ''more.dat'') then Some ''cannot open more.dat''
            else None)\<rparr>"

text \<open>A session with one programmatic input and one data file registered.\<close>

definition example_session :: session where
  "example_session =
     set_input ''more.dat'' None
       (set_input ''Items'' (Some (RowList [[PInt 1, PStr ''a'', PFloat (Fin 10)]])) new_session)"

text \<open>
  A model with a tuple set \<open>Result\<close> of two rows and a decision expression
  \<open>profit\<close>.
\<close>

definition result_set :: tuple_set where
  "result_set =
     \<lparr> ts_schema = Schema ''Result'' [(''id'', None), (''name'', None)],
       ts_column_types = [OPL_INTEGER, OPL_STRING],
       getIntColumnValues = (\<lambda>i. [PInt 1, PInt 2]),
       getNumColumnValues = (\<lambda>i. []),
       getSymbolColumnValues = (\<lambda>i. [PStr ''a'', PStr ''b'']) \<rparr>"

definition result_element :: element where
  "result_element =
     \<lparr> isDiscreteDataCollection = True, collection_isTupleSet = True,
       isDecisionExpression = False, asNum = Fin 0, asTupleSet = result_set \<rparr>"

definition profit_element :: element where
  "profit_element =
     \<lparr> isDiscreteDataCollection = False, collection_isTupleSet = False,
       isDecisionExpression = True, asNum = Fin 42, asTupleSet = result_set \<rparr>"

definition model_engine :: engine where
  "model_engine =
     quiet_engine\<lparr>elements :=
       (\<lambda>n. if n = ''Result'' then Some result_element
            else if n = ''profit'' then Some profit_element else None)\<rparr>"

text \<open>
  An engine with twelve quality metrics, named \<open>q\<close> repeated \<open>i\<close> times,
  all of value 1 but metric 1, which is infinite.
\<close>

definition quality_engine :: engine where
  "quality_engine =
     quiet_engine\<lparr>qualityEnumSize := 12, qualityEnumName := (\<lambda>i. replicate i CHR ''q''),
       quality := (\<lambda>i. if i = 1 then PosInf else Fin 1)\<rparr>"

text \<open>A MIP on the CPLEX backend with three columns and two rows.\<close>

definition stats_engine :: engine where
  "stats_engine =
     quiet_engine\<lparr>isMIP := True,
       cplex_value := (\<lambda>g. if g = ''getNcols'' then PInt 3
                        else if g = ''getNrows'' then PInt 2
                        else if g = ''isPrimalFeasible'' then PBool True
                        else if g = ''getCutoff'' then PFloat PosInf
                        else PInt 0)\<rparr>"

section \<open>Sample inputs\<close>

text \<open>The column a column batch writes, if the call is one.\<close>

fun column_of :: "ts_call \<Rightarrow> nat option" where
  "column_of (SetIntColumnValues i col n) = Some i"
| "column_of (SetNumColumnValues i col n) = Some i"
| "column_of (SetStringColumnValues i col n) = Some i"
| "column_of c = None"

text \<open>
  A schema nested two levels deep: \<open>S = (a: A, b: B)\<close> with
  \<open>A = (x, y: C)\<close>, \<open>B = (q)\<close> and \<open>C = (p)\<close>.
\<close>

definition schema_C :: schema where
  "schema_C = Schema ''C'' [(''p'', None)]"

definition schema_B :: schema where
  "schema_B = Schema ''B'' [(''q'', None)]"

definition schema_A :: schema where
  "schema_A = Schema ''A'' [(''x'', None), (''y'', Some schema_C)]"

definition schema_S :: schema where
  "schema_S = Schema ''S'' [(''a'', Some schema_A), (''b'', Some schema_B)]"

text \<open>
  A schema whose second level nests again under column 1:
  \<open>T = (id, o: O)\<close> with \<open>O = (k, i: C)\<close>.
\<close>

definition schema_O :: schema where
  "schema_O = Schema ''O'' [(''k'', None), (''i'', Some schema_C)]"

definition schema_T :: schema where
  "schema_T = Schema ''T'' [(''id'', None), (''o'', Some schema_O)]"

text \<open>A schema nested at most one level deep: no tuple column's schema has a tuple column.\<close>

definition one_level :: "schema \<Rightarrow> bool" where
  "one_level sch =
     list_all (\<lambda>c. case snd c of None \<Rightarrow> True | Some sub \<Rightarrow> \<not> hasSubTuple sub) (schema_columns sch)"

text \<open>The scenario of the specification: \<open>Items\<close> with schema (int, string, float).\<close>

definition items_schema :: "bool \<Rightarrow> set_schema" where
  "items_schema k = \<lparr> column_types = [OPL_INTEGER, OPL_STRING, OPL_FLOAT], has_key = k \<rparr>"

definition items_rows :: "pyval list list" where
  "items_rows = [[PInt 1, PStr ''a'', PFloat (Fin 10)], [PInt 2, PInt 7, PInt 20]]"

section \<open>Properties of the data source\<close>

lemmas kinds = OPL_INTEGER_def OPL_FLOAT_def OPL_STRING_def

lemmas python3_simps =
  python3_def str3_def float3_def str_float_def str_int_def str_nat.simps digit_char_def

lemma add_cells_ok:
  "\<forall>(j, t) \<in> set (enumerate i ts). j < length flds \<and> (\<exists>c. addCell I j (flds ! j) t = Inr c) \<Longrightarrow>
   add_cells I flds i ts tr =
     (Inr (), tr @ map (\<lambda>(j, t). projr (addCell I j (flds ! j) t)) (enumerate i ts))"
  by (induction ts arbitrary: i tr) auto

lemma commit_rows_ok:
  "\<forall>row \<in> set rows. \<forall>(j, t) \<in> set (enumerate 0 row).
      j < length flds \<and> (\<exists>c. addCell I j (flds ! j) t = Inr c) \<Longrightarrow>
   commit_rows I flds k rows tr =
     (Inr (), tr @ concat (map (\<lambda>row. map (\<lambda>(j, t). projr (addCell I j (flds ! j) t)) (enumerate 0 row)
                                  @ [commitMethod k False]) rows))"
  by (induction rows arbitrary: tr) (auto simp: add_cells_ok)

lemma fill_columns_ok:
  "fill_columns I bycolumn sz i flds tr = (Inr (), tr') \<Longrightarrow>
   \<exists>ws. tr' = tr @ ws \<and> map column_of ws = map Some [i..<i + length flds]"
proof (induction flds arbitrary: i tr)
  case Nil
  then show ?case by simp
next
  case (Cons ty rest)
  from Cons.prems obtain c where
    step: "fill_columns I bycolumn sz (Suc i) rest (tr @ [c]) = (Inr (), tr')"
    and c: "column_of c = Some i"
    by (auto simp: Let_def split: if_splits sum.splits)
  from Cons.IH [OF step] obtain ws where
    "tr' = (tr @ [c]) @ ws" "map column_of ws = map Some [Suc i..<Suc i + length rest]"
    by blast
  with c have
    "tr' = tr @ (c # ws) \<and> map column_of (c # ws) = map Some [i..<i + length (ty # rest)]"
    by (simp add: upt_rec)
  then show ?case by blast
qed

lemma fillTupleSet_ok:
  "fillTupleSet I flds bycolumn tr = (Inr (), tr') \<Longrightarrow>
   \<exists>ws. tr' = tr @ ws @ [FillTupleHash] \<and> map column_of ws = map Some [0..<length flds]"
  by (auto simp: fillTupleSet_def split: list.splits prod.splits sum.splits dest!: fill_columns_ok)

text \<open>
  C1. The claim: in both fill paths a string column takes a \<^verbatim>\<open>str\<close>
  verbatim, an \<^verbatim>\<open>int\<close> or \<^verbatim>\<open>float\<close> as its decimal rendering, and any
  other scalar through \<^verbatim>\<open>str\<close>. At the input \<^verbatim>\<open>[(5,)]\<close> for a schema of
  one string column the two paths part: the column path (a \<^verbatim>\<open>list\<close> of
  rows) raises \<^verbatim>\<open>TypeError\<close> under every interpreter and writes nothing,
  because \<^verbatim>\<open>type\<close> in \<^verbatim>\<open>fillTupleSet\<close> is the loop variable; the row path
  (an iterable of the same rows) writes the cell \<^verbatim>\<open>"5"\<close>.
\<close>

theorem column_path_int_in_string_column:
  "read_input I \<lparr>column_types = [OPL_STRING], has_key = k\<rparr> (RowList [[PInt 5]]) []
     = (Inl (TypeError ''int object is not callable''), [])
   \<and> read_input python3 \<lparr>column_types = [OPL_STRING], has_key = False\<rparr> (RowIterable [[PInt 5]]) []
     = (Inr (), [IloTupleCellArray 1, SetStringValue 0 ''5'', Commit2HashTable False,
                 FillColumns, CellsEnd])"
  by (simp add: read_input_def fillTupleSet_def zip_star_def kinds addCell_def commitMethod_def
      python3_simps)

text \<open>
  C4, as amended. In the column path (the value is a \<^verbatim>\<open>list\<close> of rows or
  a data frame) the schema's key is not consulted: the calls are the same
  with and without a key, and whenever the fill returns, it has written one
  column batch per schema column, in column order, and then called
  \<^verbatim>\<open>fillTupleHash\<close> once, last.
\<close>

theorem column_path_fills_hash:
  assumes "v = RowList rows \<or> v = DataFrame cols"
  shows "read_input I (schema\<lparr>has_key := k\<rparr>) v tr = read_input I schema v tr
     \<and> (\<forall>tr'. read_input I schema v tr = (Inr (), tr') \<longrightarrow>
          (\<exists>ws. tr' = tr @ ws @ [FillTupleHash]
             \<and> map column_of ws = map Some [0..<length (column_types schema)]))"
  using assms by (auto simp: read_input_def Let_def split: if_splits dest: fillTupleSet_ok)

theorem column_path_fills_hash_witness:
  "read_input python3 (items_schema False) (RowList [[PInt 1, PStr ''a'', PFloat (Fin 10)]]) []
     = (Inr (), [SetIntColumnValues 0 [PInt 1] 1, SetStringColumnValues 1 [''a''] 1,
                 SetNumColumnValues 2 [PFloat (Fin 10)] 1, FillTupleHash])
   \<and> read_input python3 ((items_schema False)\<lparr>has_key := True\<rparr>)
        (RowList [[PInt 1, PStr ''a'', PFloat (Fin 10)]]) []
     = read_input python3 (items_schema False) (RowList [[PInt 1, PStr ''a'', PFloat (Fin 10)]]) []
   \<and> (\<exists>ws. [SetIntColumnValues 0 [PInt 1] 1, SetStringColumnValues 1 [''a''] 1,
             SetNumColumnValues 2 [PFloat (Fin 10)] 1, FillTupleHash] = [] @ ws @ [FillTupleHash]
          \<and> map column_of ws = map Some [0..<length (column_types (items_schema False))])"
proof -
  let ?v = "RowList [[PInt 1, PStr ''a'', PFloat (Fin 10)]]"
  let ?tr = "[SetIntColumnValues 0 [PInt 1] 1, SetStringColumnValues 1 [''a''] 1,
              SetNumColumnValues 2 [PFloat (Fin 10)] 1, FillTupleHash]"
  have evald: "read_input python3 (items_schema False) ?v [] = (Inr (), ?tr)"
    by (simp add: read_input_def fillTupleSet_def zip_star_def items_schema_def kinds upt_rec)
  have shape: "?v = RowList [[PInt 1, PStr ''a'', PFloat (Fin 10)]] \<or> ?v = DataFrame []"
    by simp
  note inst = column_path_fills_hash
    [OF shape, where I = python3 and schema = "items_schema False" and k = True and tr = "[]"]
  from inst have same: "read_input python3 ((items_schema False)\<lparr>has_key := True\<rparr>) ?v []
      = read_input python3 (items_schema False) ?v []"
    by blast
  from inst evald have "\<exists>ws. ?tr = [] @ ws @ [FillTupleHash]
      \<and> map column_of ws = map Some [0..<length (column_types (items_schema False))]"
    by blast
  with evald same show ?thesis by blast
qed

text \<open>
  C4, as stated, fails: for a keyless schema and a list of two rows the
  column path still calls \<^verbatim>\<open>fillTupleHash\<close>.
\<close>

theorem column_path_hash_without_key:
  "\<not> (FillTupleHash \<in> set (snd (read_input python3 (items_schema False)
           (RowList [[PInt 1, PStr ''a'', PFloat (Fin 10)], [PInt 2, PStr ''b'', PFloat (Fin 20)]]) []))
        \<longleftrightarrow> has_key (items_schema False))"
  by (simp add: read_input_def fillTupleSet_def zip_star_def items_schema_def kinds upt_rec)

text \<open>
  C5. In the row path (the value is an iterable that is neither a \<^verbatim>\<open>list\<close>
  nor a data frame), when no row is longer than the schema and every cell
  converts, \<^verbatim>\<open>read\<close> returns, and its calls are: the cell array, then for
  every row in order its cells in column order followed by one commit, with
  \<^verbatim>\<open>commit\<close> when the schema has a key and \<^verbatim>\<open>commit2HashTable\<close> when it
  has none, then \<^verbatim>\<open>fillColumns\<close> exactly when the schema has no key, then
  the release of the cell array.
\<close>

theorem row_path_commits:
  assumes "\<forall>row \<in> set rows. \<forall>(j, t) \<in> set (enumerate 0 row).
             j < length (column_types schema) \<and> (\<exists>c. addCell I j (column_types schema ! j) t = Inr c)"
  shows "read_input I schema (RowIterable rows) tr =
     (Inr (), tr @ [IloTupleCellArray (length (column_types schema))]
        @ concat (map (\<lambda>row. map (\<lambda>(j, t). projr (addCell I j (column_types schema ! j) t)) (enumerate 0 row)
                    @ [if has_key schema then Commit False else Commit2HashTable False]) rows)
        @ (if has_key schema then [] else [FillColumns]) @ [CellsEnd])"
  using assms by (simp add: read_input_def commit_rows_ok commitMethod_def Let_def)

theorem row_path_commits_witness:
  "read_input python3 (items_schema True) (RowIterable items_rows) [] =
     (Inr (), [IloTupleCellArray 3,
               SetNumValue 0 (Fin 1), SetStringValue 1 ''a'', SetNumValue 2 (Fin 10), Commit False,
               SetNumValue 0 (Fin 2), SetStringValue 1 ''7'', SetNumValue 2 (Fin 20), Commit False,
               CellsEnd])
   \<and> read_input python3 (items_schema False) (RowIterable items_rows) [] =
     (Inr (), [IloTupleCellArray 3,
               SetNumValue 0 (Fin 1), SetStringValue 1 ''a'', SetNumValue 2 (Fin 10), Commit2HashTable False,
               SetNumValue 0 (Fin 2), SetStringValue 1 ''7'', SetNumValue 2 (Fin 20), Commit2HashTable False,
               FillColumns, CellsEnd])"
proof -
  have ok: "\<forall>row \<in> set items_rows. \<forall>(j, t) \<in> set (enumerate 0 row).
      j < length (column_types (items_schema k))
      \<and> (\<exists>c. addCell python3 j (column_types (items_schema k) ! j) t = Inr c)" for k
    by (simp add: items_rows_def items_schema_def kinds addCell_def python3_simps)
  show ?thesis
    using row_path_commits [OF ok, of True "[]"] row_path_commits [OF ok, of False "[]"]
    by (simp add: items_rows_def items_schema_def kinds addCell_def python3_simps)
qed

section \<open>Properties of the session\<close>

text \<open>
  C9. The claim: the labels of a frame flatten nested columns at every
  depth, each column of a nested tuple column labelled with the sub-tuple's
  name, a dot and the inner column's flattened name. For the schema
  \<open>S = (a: A, b: B)\<close>, \<open>A = (x, y: C)\<close>, \<open>B = (q)\<close>, \<open>C = (p)\<close> that is
  \<^verbatim>\<open>A.x, A.C.p, B.q\<close>. \<^verbatim>\<open>get_names\<close> returns \<^verbatim>\<open>A.x, A.B.q, B.q\<close>: inside
  \<open>A\<close>, column 1 is looked up in the outermost schema (line 458 reads
  \<^verbatim>\<open>schema\<close>, not \<^verbatim>\<open>schem\<close>), which gives \<open>B\<close> in place of \<open>C\<close>.
\<close>

theorem get_names_second_level:
  "get_names (Suc (Suc (Suc d))) schema_S schema_S = Inr [''A.x'', ''A.B.q'', ''B.q'']
   \<and> spec_names schema_S = [''A.x'', ''A.C.p'', ''B.q'']"
  by (simp add: schema_S_def schema_A_def schema_B_def schema_C_def hasSubTuple_def getSize_def
      isTuple_def getTupleColumn_def getColumnName_def upt_rec)

text \<open>
  The same line makes \<^verbatim>\<open>get_names\<close> call itself without end on
  \<open>T = (id, o: O)\<close>, \<open>O = (k, i: C)\<close>: inside \<open>O\<close>, column 1 of the
  outermost schema is \<open>O\<close> again. Python ends it with \<^verbatim>\<open>RecursionError\<close>,
  whatever the limit.
\<close>

lemmas schema_eval = hasSubTuple_def getSize_def isTuple_def getTupleColumn_def getColumnName_def upt_rec

lemma get_names_inner_never_returns: "get_names d schema_T schema_O = Inl RecursionError"
  by (induction d) (simp_all add: schema_T_def schema_O_def schema_C_def schema_eval)

lemma get_names_never_returns: "get_names d schema_T schema_T = Inl RecursionError"
  using get_names_inner_never_returns
  by (cases d) (simp_all add: schema_T_def schema_O_def schema_C_def schema_eval)

lemma spec_names_T: "spec_names schema_T = [''id'', ''O.k'', ''O.C.p'']"
  by (simp add: schema_T_def schema_O_def schema_C_def)

text \<open>
  On a schema nested at most one level deep the outermost schema is the
  schema at hand wherever line 458 runs, and the labels are those of the
  "outer.inner" rule.
\<close>

lemma map_nth_fst: "map (\<lambda>i. f (xs ! i)) [0..<length xs] = map f xs"
proof -
  have "map f (map ((!) xs) [0..<length xs]) = map f xs"
    by (simp only: map_nth)
  then show ?thesis
    unfolding map_map comp_def .
qed

lemma flat_spec_names:
  "\<not> hasSubTuple sub \<Longrightarrow> spec_names sub = map fst (schema_columns sub)"
proof (cases sub)
  case (Schema n cols)
  assume "\<not> hasSubTuple sub"
  with Schema have "\<forall>c \<in> set cols. snd c = None"
    by (auto simp: hasSubTuple_def list_ex_iff)
  then have "concat (map (\<lambda>c. case snd c of None \<Rightarrow> [fst c]
      | Some sub \<Rightarrow> map (\<lambda>x. schema_name sub @ ''.'' @ x) (spec_names sub)) cols) = map fst cols"
    by (induction cols) auto
  with Schema show ?thesis by simp
qed

lemma flat_get_names:
  "\<not> hasSubTuple sub \<Longrightarrow> get_names (Suc d) outer sub = Inr (map fst (schema_columns sub))"
  by (simp add: getSize_def getColumnName_def [abs_def] map_nth_fst)

lemma names_loop_one_level:
  assumes "one_level sch"
  shows "k \<le> length (schema_columns sch) \<Longrightarrow>
    names_loop (get_names (Suc d) sch) sch sch [k..<length (schema_columns sch)] acc =
      Inr (acc @ concat (map (\<lambda>c. case snd c of None \<Rightarrow> [fst c]
              | Some sub \<Rightarrow> map (\<lambda>x. schema_name sub @ ''.'' @ x) (spec_names sub))
            (drop k (schema_columns sch))))"
proof (induction "length (schema_columns sch) - k" arbitrary: k acc)
  case 0
  then show ?case by simp
next
  case (Suc m)
  let ?cols = "schema_columns sch"
  from Suc.hyps(2) have k: "k < length ?cols" by simp
  then have upt: "[k..<length ?cols] = k # [Suc k..<length ?cols]"
    by (simp add: upt_conv_Cons)
  from k have dr: "drop k ?cols = ?cols ! k # drop (Suc k) ?cols"
    by (simp add: Cons_nth_drop_Suc)
  from Suc.hyps(2) have m: "m = length ?cols - Suc k" by simp
  from k have k': "Suc k \<le> length ?cols" by simp
  note IH = Suc.hyps(1) [OF m k']
  show ?case
  proof (cases "snd (?cols ! k)")
    case None
    with k show ?thesis
      by (simp add: upt dr IH isTuple_def getSize_def getColumnName_def del: upt_Suc)
  next
    case (Some sub)
    from assms k Some have flat: "\<not> hasSubTuple sub"
      by (auto simp: one_level_def list_all_iff dest!: nth_mem split: option.splits)
    from k Some show ?thesis
      by (simp add: upt dr IH isTuple_def getSize_def getTupleColumn_def
          flat_get_names [OF flat] flat_spec_names [OF flat] del: upt_Suc get_names.simps)
  qed
qed

theorem one_level_names:
  assumes "one_level sch"
  shows "get_names (Suc (Suc d)) sch sch = Inr (spec_names sch)"
proof (cases "hasSubTuple sch")
  case False
  then show ?thesis using flat_get_names [OF False] flat_spec_names [OF False] by simp
next
  case True
  have sp: "spec_names sch = concat (map (\<lambda>c. case snd c of None \<Rightarrow> [fst c]
              | Some sub \<Rightarrow> map (\<lambda>x. schema_name sub @ ''.'' @ x) (spec_names sub)) (schema_columns sch))"
    by (cases sch) simp
  from True names_loop_one_level [OF assms, of 0 d "[]"] sp show ?thesis
    by (simp add: getSize_def del: names_loop.simps)
qed

theorem one_level_names_witness:
  "get_names 2 (ts_schema result_set) (ts_schema result_set) = Inr [''id'', ''name'']
   \<and> get_names 2 schema_A schema_A = Inr [''x'', ''C.p'']"
proof -
  have "one_level (ts_schema result_set)" "one_level schema_A"
    by (simp_all add: one_level_def result_set_def schema_A_def schema_C_def hasSubTuple_def)
  from one_level_names [OF this(1), of 0] one_level_names [OF this(2), of 0] show ?thesis
    by (simp add: result_set_def schema_A_def schema_C_def numeral_2_eq_2)
qed

text \<open>
  In the row path a string column takes a \<^verbatim>\<open>str\<close> verbatim and any other
  value through \<^verbatim>\<open>str\<close> (under Python 2 a \<^verbatim>\<open>unicode\<close> value is encoded
  after \<^verbatim>\<open>str\<close>); every other column takes \<^verbatim>\<open>float\<close> of the value.
\<close>

theorem addCell_coercion:
  "addCell I i OPL_STRING (PStr s) = Inr (SetStringValue i s)
   \<and> (type_of v \<noteq> T_str \<and> \<not> (version_major I = 2 \<and> type_of v = T_unicode) \<longrightarrow>
        addCell I i OPL_STRING v =
          (case str_of I v of Inl e \<Rightarrow> Inl e | Inr r \<Rightarrow> Inr (SetStringValue i r)))
   \<and> (f \<noteq> OPL_STRING \<longrightarrow>
        addCell I i f v =
          (case float_of I v of Inl e \<Rightarrow> Inl e | Inr x \<Rightarrow> Inr (SetNumValue i x)))"
  by (cases v) (auto simp: addCell_def)

theorem addCell_coercion_witness:
  "addCell python3 0 OPL_STRING (PInt 5) = Inr (SetStringValue 0 ''5'')
   \<and> addCell python3 0 OPL_STRING (PFloat (Fin 3)) = Inr (SetStringValue 0 ''3.0'')
   \<and> addCell python3 0 OPL_STRING (PBool True) = Inr (SetStringValue 0 ''True'')
   \<and> addCell python3 2 OPL_FLOAT (PInt 20) = Inr (SetNumValue 2 (Fin 20))"
  using addCell_coercion [of python3 0 "''a''" "PInt 5" OPL_FLOAT]
    addCell_coercion [of python3 0 "''a''" "PFloat (Fin 3)" OPL_FLOAT]
    addCell_coercion [of python3 0 "''a''" "PBool True" OPL_FLOAT]
    addCell_coercion [of python3 2 "''a''" "PInt 20" OPL_FLOAT]
  by (simp add: kinds python3_simps)

lemma engine_call_fields [simp]:
  "calls (snd (engine_call E c s)) = calls s @ [c]"
  "printed (snd (engine_call E c s)) = printed s"
  "inputs (snd (engine_call E c s)) = inputs s"
  "datfiles (snd (engine_call E c s)) = datfiles s"
  "has_profiler (snd (engine_call E c s)) = has_profiler s"
  "cplex_stats_cache (snd (engine_call E c s)) = cplex_stats_cache s"
  "cplex_quality_cache (snd (engine_call E c s)) = cplex_quality_cache s"
  by (auto simp: engine_call_def engine_effect_def Let_def split: option.splits call.splits)

lemma engine_call_generated:
  "is_generated (snd (engine_call E c s)) = (is_generated s \<or> (c = Generate \<and> raises E c = None))"
  by (auto simp: engine_call_def engine_effect_def Let_def split: option.splits call.splits)

lemma engine_call_fst:
  "fst (engine_call E c s) = (case raises E c of Some m \<Rightarrow> Inl (EngineError m) | None \<Rightarrow> Inr ())"
  by (auto simp: engine_call_def Let_def split: option.splits)

lemma attach_datfiles_eq:
  "attach_datfiles E vs s =
   do_calls E (concat (map (\<lambda>v. [IloOplDataSource (FileSource v), AddDataSource (FileSource v)]) vs)) s"
  by (induction vs arbitrary: s) (auto split: prod.splits sum.splits)

lemma do_calls_append:
  "do_calls E (xs @ ys) s =
     (case do_calls E xs s of (Inl e, s') \<Rightarrow> (Inl e, s') | (Inr u, s') \<Rightarrow> do_calls E ys s')"
  by (induction xs arbitrary: s) (auto split: prod.splits sum.splits)

lemma do_calls_fields [simp]:
  "printed (snd (do_calls E cs s)) = printed s"
  "inputs (snd (do_calls E cs s)) = inputs s"
  "datfiles (snd (do_calls E cs s)) = datfiles s"
  "has_profiler (snd (do_calls E cs s)) = has_profiler s"
  "cplex_stats_cache (snd (do_calls E cs s)) = cplex_stats_cache s"
  "cplex_quality_cache (snd (do_calls E cs s)) = cplex_quality_cache s"
  by (induction cs arbitrary: s; simp split: prod.splits sum.splits; metis engine_call_fields snd_conv)+

lemma engine_call_cases:
  assumes "engine_call E c s = (r, s')"
  shows "calls s' = calls s @ [c]" "printed s' = printed s" "inputs s' = inputs s"
    "datfiles s' = datfiles s" "has_profiler s' = has_profiler s"
    "cplex_stats_cache s' = cplex_stats_cache s" "cplex_quality_cache s' = cplex_quality_cache s"
    "is_generated s' = (is_generated s \<or> (c = Generate \<and> raises E c = None))"
    "r = (case raises E c of Some m \<Rightarrow> Inl (EngineError m) | None \<Rightarrow> Inr ())"
  using assms engine_call_fields [of E c s] engine_call_generated [of E c s] engine_call_fst [of E c s]
  by simp_all

lemma do_calls_ok:
  "do_calls E cs s = (Inr u, s') \<Longrightarrow>
   calls s' = calls s @ cs \<and> (\<forall>c \<in> set cs. raises E c = None)
   \<and> is_generated s' = (is_generated s \<or> Generate \<in> set cs)"
proof (induction cs arbitrary: s)
  case Nil
  then show ?case by simp
next
  case (Cons c cs)
  from Cons.prems obtain s1 where
    c: "engine_call E c s = (Inr (), s1)" and rest: "do_calls E cs s1 = (Inr u, s')"
    by (auto split: prod.splits sum.splits)
  from engine_call_cases [OF c] Cons.IH [OF rest] show ?case
    by (auto split: option.splits)
qed

lemma do_calls_err:
  "do_calls E cs s = (Inl e, s') \<Longrightarrow>
   \<exists>pre c post m. cs = pre @ c # post \<and> calls s' = calls s @ pre @ [c]
      \<and> raises E c = Some m \<and> e = EngineError m \<and> (\<forall>c' \<in> set pre. raises E c' = None)
      \<and> is_generated s' = (is_generated s \<or> Generate \<in> set pre)"
proof (induction cs arbitrary: s)
  case Nil
  then show ?case by simp
next
  case (Cons c cs)
  obtain r s1 where c: "engine_call E c s = (r, s1)" by (cases "engine_call E c s")
  show ?case
  proof (cases r)
    case (Inl e1)
    with c Cons.prems have "e = e1" "s' = s1" by simp_all
    with engine_call_cases [OF c] Inl obtain m where
      "raises E c = Some m" "e = EngineError m" "calls s' = calls s @ [] @ [c]"
      "is_generated s' = is_generated s"
      by (auto split: option.splits)
    then have "c # cs = [] @ c # cs \<and> calls s' = calls s @ [] @ [c]
      \<and> raises E c = Some m \<and> e = EngineError m \<and> (\<forall>c' \<in> set []. raises E c' = None)
      \<and> is_generated s' = (is_generated s \<or> Generate \<in> set [])"
      by simp
    then show ?thesis by blast
  next
    case (Inr u1)
    with c Cons.prems have rest: "do_calls E cs s1 = (Inl e, s')" by simp
    from Cons.IH [OF rest] obtain pre c2 post m where
      h: "cs = pre @ c2 # post" "calls s' = calls s1 @ pre @ [c2]" "raises E c2 = Some m"
         "e = EngineError m" "\<forall>c' \<in> set pre. raises E c' = None"
         "is_generated s' = (is_generated s1 \<or> Generate \<in> set pre)"
      by blast
    from engine_call_cases [OF c] Inr have
      c_ok: "raises E c = None" "calls s1 = calls s @ [c]"
        "is_generated s1 = (is_generated s \<or> c = Generate)"
      by (auto split: option.splits)
    with h have "c # cs = (c # pre) @ c2 # post \<and> calls s' = calls s @ (c # pre) @ [c2]
      \<and> raises E c2 = Some m \<and> e = EngineError m \<and> (\<forall>c' \<in> set (c # pre). raises E c' = None)
      \<and> is_generated s' = (is_generated s \<or> Generate \<in> set (c # pre))"
      by auto
    then show ?thesis by blast
  qed
qed

lemma do_calls_quiet:
  "\<forall>c \<in> set cs. raises E c = None \<Longrightarrow> \<exists>s'. do_calls E cs s = (Inr (), s')"
  by (induction cs arbitrary: s) (auto simp: engine_call_def Let_def split: prod.splits)

lemma attach_if:
  "(if length vs \<noteq> 0 then attach_datfiles E vs s else (Inr (), s)) =
   do_calls E (concat (map (\<lambda>v. [IloOplDataSource (FileSource v), AddDataSource (FileSource v)]) vs)) s"
  by (cases vs) (simp_all add: attach_datfiles_eq del: attach_datfiles.simps do_calls.simps, simp)

lemma inputs_if:
  "(if length xs \<noteq> 0 then
      and_then (engine_call E (IloOplDataSource (PythonSource xs)) s)
        (\<lambda>_ s1'. engine_call E (AddDataSource (PythonSource xs)) s1')
    else (Inr (), s)) =
   do_calls E (if length xs \<noteq> 0 then [IloOplDataSource (PythonSource xs), AddDataSource (PythonSource xs)] else []) s"
  by (auto simp: and_then_def split: prod.splits sum.splits)

lemma tail_generate:
  "and_then (engine_call E Generate s3) (\<lambda>_ s4. (Inr True, s4)) = as_True (do_calls E [Generate] s3)"
  by (simp add: and_then_def as_True_def split: prod.splits sum.splits)

lemma and_then_do_calls:
  "and_then (do_calls E xs s) (\<lambda>_ s'. as_True (do_calls E ys s')) = as_True (do_calls E (xs @ ys) s)"
  by (simp add: and_then_def as_True_def do_calls_append split: prod.splits sum.splits)

lemma and_then_do_calls_cong:
  assumes "\<And>u s'. datfiles s' = datfiles s \<Longrightarrow> inputs s' = inputs s \<Longrightarrow> k u s' = k' u s'"
  shows "and_then (do_calls E xs s) k = and_then (do_calls E xs s) k'"
proof (cases "do_calls E xs s")
  case (Pair r s')
  have "datfiles s' = datfiles s" "inputs s' = inputs s"
    using do_calls_fields(2,3) [of E xs s] Pair by simp_all
  with assms Pair show ?thesis
    by (simp add: and_then_def split: sum.splits)
qed

lemma generate_from:
  "and_then
     (if length (inputs s1) \<noteq> 0 then
        and_then (engine_call E (IloOplDataSource (PythonSource (inputs s1))) s1) (\<lambda>_ s1'.
          engine_call E (AddDataSource (PythonSource (inputs s1))) s1')
      else (Inr (), s1)) (\<lambda>_ s2.
   and_then
     (if length (datfiles s2) \<noteq> 0 then attach_datfiles E (datfiles s2) s2
      else (Inr (), s2)) (\<lambda>_ s3.
   and_then (engine_call E Generate s3) (\<lambda>_ s4. (Inr True, s4))))
   = as_True (do_calls E (tl (generation_calls s1)) s1)"
proof -
  let ?ins = "if length (inputs s1) \<noteq> 0
      then [IloOplDataSource (PythonSource (inputs s1)), AddDataSource (PythonSource (inputs s1))]
      else []"
  let ?dfs = "\<lambda>s. concat (map (\<lambda>v. [IloOplDataSource (FileSource v), AddDataSource (FileSource v)]) (datfiles s))"
  have "and_then (do_calls E ?ins s1) (\<lambda>_ s2. as_True (do_calls E (?dfs s2 @ [Generate]) s2))
      = and_then (do_calls E ?ins s1) (\<lambda>_ s2. as_True (do_calls E (?dfs s1 @ [Generate]) s2))"
    by (rule and_then_do_calls_cong) simp
  also have "\<dots> = as_True (do_calls E (?ins @ ?dfs s1 @ [Generate]) s1)"
    by (rule and_then_do_calls)
  finally show ?thesis
    by (simp only: inputs_if attach_if tail_generate and_then_do_calls generation_calls_def list.sel)
qed

lemma generation_calls_cong:
  "inputs s' = inputs s \<Longrightarrow> datfiles s' = datfiles s \<Longrightarrow> generation_calls s' = generation_calls s"
  by (simp add: generation_calls_def)

lemma generation_calls_hd:
  "generation_calls s = SetSkipWarnNeverUsedElements True # tl (generation_calls s)"
  by (simp add: generation_calls_def)

lemma generate_try_eq:
  "generate_try E s =
     as_True (do_calls E (IsGenerated # (if is_generated s then [] else generation_calls s)) s)"
proof -
  obtain r s0 where c: "engine_call E IsGenerated s = (r, s0)"
    by (cases "engine_call E IsGenerated s")
  have g0: "is_generated s0 = is_generated s" and i0: "inputs s0 = inputs s" "datfiles s0 = datfiles s"
    using engine_call_cases(8,3,4) [OF c] by simp_all
  have unfolded: "generate_try E s =
      and_then (r, s0) (\<lambda>_ s0.
       if is_generated s0 = False then
         and_then (engine_call E (SetSkipWarnNeverUsedElements True) s0) (\<lambda>_ s1.
           as_True (do_calls E (tl (generation_calls s1)) s1))
       else (Inr True, s0))"
    unfolding generate_try_def generate_from c ..
  show ?thesis
  proof (cases r)
    case (Inl e)
    with c unfolded show ?thesis by (simp add: and_then_def as_True_def)
  next
    case (Inr u)
    show ?thesis
    proof (cases "is_generated s")
      case True
      with c Inr unfolded g0 show ?thesis by (simp add: and_then_def as_True_def)
    next
      case False
      obtain r1 s1 where c1: "engine_call E (SetSkipWarnNeverUsedElements True) s0 = (r1, s1)"
        by (cases "engine_call E (SetSkipWarnNeverUsedElements True) s0")
      have "inputs s1 = inputs s" "datfiles s1 = datfiles s"
        using engine_call_cases(3,4) [OF c1] i0 by simp_all
      then have same: "generation_calls s1 = generation_calls s"
        by (rule generation_calls_cong)
      have "generate_try E s = and_then (r1, s1) (\<lambda>_ s1. as_True (do_calls E (tl (generation_calls s1)) s1))"
        using unfolded Inr False g0 c1 by (simp add: and_then_def)
      also have "\<dots> = (case r1 of Inl e \<Rightarrow> (Inl e, s1) | Inr u \<Rightarrow> as_True (do_calls E (tl (generation_calls s)) s1))"
        using same by (simp add: and_then_def split: sum.splits)
      also have "\<dots> = as_True (do_calls E (generation_calls s) s0)"
        using c1 by (subst (2) generation_calls_hd) (simp add: as_True_def split: sum.splits)
      also have "\<dots> = as_True (do_calls E (IsGenerated # (if is_generated s then [] else generation_calls s)) s)"
        using c Inr False by simp
      finally show ?thesis .
    qed
  qed
qed

lemma new_calls_eq: "calls s' = calls s @ xs \<Longrightarrow> new_calls s s' = xs"
  by (simp add: new_calls_def)

lemma generate_ok:
  assumes "fst (generate E s)"
  shows "calls (snd (generate E s)) = calls s @ IsGenerated # (if is_generated s then [] else generation_calls s)"
    and "\<forall>c \<in> set (IsGenerated # (if is_generated s then [] else generation_calls s)). raises E c = None"
    and "is_generated (snd (generate E s))"
    and "printed (snd (generate E s)) = printed s"
    and "inputs (snd (generate E s)) = inputs s"
    and "datfiles (snd (generate E s)) = datfiles s"
    and "has_profiler (snd (generate E s)) = has_profiler s"
proof -
  let ?plan = "IsGenerated # (if is_generated s then [] else generation_calls s)"
  obtain r s' where d: "do_calls E ?plan s = (r, s')" by (cases "do_calls E ?plan s")
  from assms d obtain u where r: "r = Inr u" and g: "generate E s = (True, s')"
    by (cases r) (auto simp: generate_def generate_try_eq as_True_def)
  from d r have d': "do_calls E ?plan s = (Inr u, s')" by simp
  note ok = do_calls_ok [OF d']
  from ok g show "calls (snd (generate E s)) = calls s @ ?plan" by simp
  from ok show "\<forall>c \<in> set ?plan. raises E c = None" by blast
  from ok g show "is_generated (snd (generate E s))" by (auto simp: generation_calls_def)
  from g do_calls_fields [of E ?plan s] d
  show "printed (snd (generate E s)) = printed s" "inputs (snd (generate E s)) = inputs s"
    "datfiles (snd (generate E s)) = datfiles s" "has_profiler (snd (generate E s)) = has_profiler s"
    by simp_all
qed

lemma generate_fail:
  assumes "\<not> fst (generate E s)"
  shows "\<exists>pre c post m.
      IsGenerated # (if is_generated s then [] else generation_calls s) = pre @ c # post
    \<and> calls (snd (generate E s)) = calls s @ pre @ [c]
    \<and> raises E c = Some m \<and> (\<forall>c' \<in> set pre. raises E c' = None)
    \<and> printed (snd (generate E s)) = printed s @ [m]"
proof -
  let ?plan = "IsGenerated # (if is_generated s then [] else generation_calls s)"
  obtain r s' where d: "do_calls E ?plan s = (r, s')" by (cases "do_calls E ?plan s")
  from assms d obtain e where r: "r = Inl e"
    and g: "generate E s = (False, s'\<lparr>printed := printed s' @ [message e]\<rparr>)"
    by (cases r) (auto simp: generate_def generate_try_eq as_True_def)
  from d r have d': "do_calls E ?plan s = (Inl e, s')" by simp
  from do_calls_err [OF d'] obtain pre c post m where
    h: "?plan = pre @ c # post" "calls s' = calls s @ pre @ [c]" "raises E c = Some m"
       "e = EngineError m" "\<forall>c' \<in> set pre. raises E c' = None"
    by blast
  have p: "printed s' = printed s" using do_calls_fields(1) [of E ?plan s] d by simp
  from h g p have "?plan = pre @ c # post \<and> calls (snd (generate E s)) = calls s @ pre @ [c]
    \<and> raises E c = Some m \<and> (\<forall>c' \<in> set pre. raises E c' = None)
    \<and> printed (snd (generate E s)) = printed s @ [m]"
    by simp
  then show ?thesis by blast
qed

lemma solve_calls:
  "\<exists>xs. calls (snd (solve E s)) = calls s @ xs \<and> set xs \<subseteq> {IsUsingCP, CP_solve, Cplex_solve}"
  by (auto simp: solve_def and_then_def engine_call_def engine_effect_def Let_def split: option.splits)

lemma run_not_usage:
  "fst (generate E s) \<Longrightarrow> fst (run E s) \<noteq> Inl (ValueError m)"
  by (cases "generate E s")
     (auto simp: run_def solve_def and_then_def engine_call_def Let_def split: option.splits)

lemma run_usage:
  "\<not> fst (generate E s) \<Longrightarrow> run E s = (Inl (ValueError ''model was not generated''), snd (generate E s))"
  by (cases "generate E s") (auto simp: run_def)

lemma generation_calls_no_post: "PostProcess \<notin> set (generation_calls s)"
  by (auto simp: generation_calls_def)

lemma generate_raise_iff:
  "(\<not> fst (generate E s)) = (\<exists>c \<in> set (new_calls s (snd (generate E s))). raises E c \<noteq> None)"
proof (cases "fst (generate E s)")
  case True
  from generate_ok(1,2) [OF True] show ?thesis
    using True by (simp add: new_calls_def)
next
  case False
  from generate_fail [OF False] obtain pre c post m where
    "calls (snd (generate E s)) = calls s @ pre @ [c]" "raises E c = Some m"
    by blast
  then show ?thesis using False by (auto simp: new_calls_def)
qed

lemma generate_raise_printed:
  assumes "c \<in> set (new_calls s (snd (generate E s)))" "raises E c = Some m"
  shows "printed (snd (generate E s)) = printed s @ [m]"
proof (cases "fst (generate E s)")
  case True
  from generate_ok(1,2) [OF True] assms show ?thesis by (auto simp: new_calls_def)
next
  case False
  from generate_fail [OF False] obtain pre c0 post m0 where
    h: "calls (snd (generate E s)) = calls s @ pre @ [c0]" "raises E c0 = Some m0"
       "\<forall>c' \<in> set pre. raises E c' = None" "printed (snd (generate E s)) = printed s @ [m0]"
    by blast
  with assms have "c = c0" by (auto simp: new_calls_def)
  with assms h show ?thesis by simp
qed

lemma run_solve_False:
  assumes "fst (generate E s)" "fst (solve E (snd (generate E s))) = Inr False"
  shows "fst (run E s) = Inr False" "PostProcess \<notin> set (new_calls s (snd (run E s)))"
proof -
  obtain s1 where g: "generate E s = (True, s1)" using assms(1) by (cases "generate E s") auto
  obtain s2 where sv: "solve E s1 = (Inr False, s2)" using assms(2) g by (cases "solve E s1") auto
  have r: "run E s = (Inr False, s2)" using g sv by (simp add: run_def and_then_def)
  then show "fst (run E s) = Inr False" by simp
  from solve_calls [of E s1] sv obtain xs where
    xs: "calls s2 = calls s1 @ xs" "set xs \<subseteq> {IsUsingCP, CP_solve, Cplex_solve}" by auto
  from generate_ok(1) [OF assms(1)] g have
    "calls s1 = calls s @ IsGenerated # (if is_generated s then [] else generation_calls s)" by simp
  with xs r show "PostProcess \<notin> set (new_calls s (snd (run E s)))"
    using generation_calls_no_post [of s] by (auto simp: new_calls_def)
qed

lemma run_solve_True:
  assumes "fst (generate E s)" "fst (solve E (snd (generate E s))) = Inr True"
    "raises E PostProcess = None" "raises E HasProfiler = None" "raises E PrintReport = None"
  shows "fst (run E s) = Inr True" "PostProcess \<in> set (new_calls s (snd (run E s)))"
proof -
  obtain s1 where g: "generate E s = (True, s1)" using assms(1) by (cases "generate E s") auto
  obtain s2 where sv: "solve E s1 = (Inr True, s2)" using assms(2) g by (cases "solve E s1") auto
  from solve_calls [of E s1] sv obtain xs where xs: "calls s2 = calls s1 @ xs" by auto
  from generate_ok(1) [OF assms(1)] g obtain ys where ys: "calls s1 = calls s @ ys" by simp
  have r: "run E s =
     (Inr True, if has_profiler s2
        then s2\<lparr>calls := calls s2 @ [PostProcess, HasProfiler, PrintReport]\<rparr>
        else s2\<lparr>calls := calls s2 @ [PostProcess, HasProfiler]\<rparr>)"
    using g sv assms(3-5)
    by (simp add: run_def and_then_def engine_call_def engine_effect_def Let_def)
  then show "fst (run E s) = Inr True" by simp
  from r xs ys show "PostProcess \<in> set (new_calls s (snd (run E s)))"
    by (simp add: new_calls_def)
qed

lemmas session_eval =
  example_session_def new_session_def set_input_def quiet_engine_def failing_engine_def
  missing_file_engine_def
  generate_def generate_try_def solve_def run_def and_then_def engine_call_def engine_effect_def
  new_calls_def Let_def

text \<open>
  C2. \<^verbatim>\<open>run\<close> raises the usage error (\<^verbatim>\<open>ValueError\<close>) exactly when
  \<^verbatim>\<open>__generate\<close> returns \<^verbatim>\<open>False\<close>; \<^verbatim>\<open>__generate\<close> returns \<^verbatim>\<open>False\<close>
  exactly when one of the engine calls it made raised, and then the message
  of that exception has been printed (nothing propagates: \<^verbatim>\<open>__generate\<close>
  returns a boolean). When generation succeeded and \<^verbatim>\<open>__solve\<close> returns
  \<^verbatim>\<open>False\<close>, \<^verbatim>\<open>run\<close> returns \<^verbatim>\<open>False\<close> and has not called
  \<^verbatim>\<open>postProcess\<close>; when \<^verbatim>\<open>__solve\<close> returns \<^verbatim>\<open>True\<close> and the calls that
  follow do not raise, \<^verbatim>\<open>run\<close> returns \<^verbatim>\<open>True\<close> and has called
  \<^verbatim>\<open>postProcess\<close>.
\<close>

theorem run_outcomes:
  "((\<exists>m. fst (run E s) = Inl (ValueError m)) \<longleftrightarrow> \<not> fst (generate E s))
   \<and> (\<not> fst (generate E s) \<longleftrightarrow> (\<exists>c \<in> set (new_calls s (snd (generate E s))). raises E c \<noteq> None))
   \<and> (\<forall>c m. c \<in> set (new_calls s (snd (generate E s))) \<and> raises E c = Some m
         \<longrightarrow> printed (snd (generate E s)) = printed s @ [m])
   \<and> (fst (generate E s) \<and> fst (solve E (snd (generate E s))) = Inr False
         \<longrightarrow> fst (run E s) = Inr False \<and> PostProcess \<notin> set (new_calls s (snd (run E s))))
   \<and> (fst (generate E s) \<and> fst (solve E (snd (generate E s))) = Inr True
        \<and> raises E PostProcess = None \<and> raises E HasProfiler = None \<and> raises E PrintReport = None
         \<longrightarrow> fst (run E s) = Inr True \<and> PostProcess \<in> set (new_calls s (snd (run E s))))"
proof -
  have a: "(\<exists>m. fst (run E s) = Inl (ValueError m)) \<longleftrightarrow> \<not> fst (generate E s)"
    using run_not_usage [of E s] run_usage [of E s] by (cases "fst (generate E s)") auto
  show ?thesis
    using a generate_raise_iff [of E s] generate_raise_printed [of _ s E]
      run_solve_False [of E s] run_solve_True [of E s]
    by blast
qed

theorem run_outcomes_witness:
  "fst (run failing_engine example_session) = Inl (ValueError ''model was not generated'')
   \<and> printed (snd (generate failing_engine example_session)) = [''no data'']
   \<and> fst (run (quiet_engine\<lparr>solve_result := False\<rparr>) example_session) = Inr False
   \<and> PostProcess \<notin> set (new_calls example_session (snd (run (quiet_engine\<lparr>solve_result := False\<rparr>) example_session)))
   \<and> fst (run quiet_engine example_session) = Inr True
   \<and> PostProcess \<in> set (new_calls example_session (snd (run quiet_engine example_session)))"
proof -
  have f: "\<not> fst (generate failing_engine example_session)"
    "Generate \<in> set (new_calls example_session (snd (generate failing_engine example_session)))"
    "raises failing_engine Generate = Some ''no data''"
    "printed example_session = []"
    by (simp_all add: session_eval)
  have g: "fst (generate (quiet_engine\<lparr>solve_result := False\<rparr>) example_session)"
    "fst (solve (quiet_engine\<lparr>solve_result := False\<rparr>)
        (snd (generate (quiet_engine\<lparr>solve_result := False\<rparr>) example_session))) = Inr False"
    by (simp_all add: session_eval)
  have h: "fst (generate quiet_engine example_session)"
    "fst (solve quiet_engine (snd (generate quiet_engine example_session))) = Inr True"
    "raises quiet_engine PostProcess = None" "raises quiet_engine HasProfiler = None"
    "raises quiet_engine PrintReport = None"
    by (simp_all add: session_eval)
  from run_outcomes [of failing_engine example_session] f
  have 1: "fst (run failing_engine example_session) = Inl (ValueError ''model was not generated'')"
    "printed (snd (generate failing_engine example_session)) = [''no data'']"
    using run_usage [of failing_engine example_session] by auto
  from run_outcomes [of "quiet_engine\<lparr>solve_result := False\<rparr>" example_session] g
  have 2: "fst (run (quiet_engine\<lparr>solve_result := False\<rparr>) example_session) = Inr False"
    "PostProcess \<notin> set (new_calls example_session (snd (run (quiet_engine\<lparr>solve_result := False\<rparr>) example_session)))"
    by blast+
  from run_outcomes [of quiet_engine example_session] h
  have 3: "fst (run quiet_engine example_session) = Inr True"
    "PostProcess \<in> set (new_calls example_session (snd (run quiet_engine example_session)))"
    by blast+
  from 1 2 3 show ?thesis by blast
qed

lemma run_keeps_generated:
  assumes "fst (generate E s)"
  shows "is_generated (snd (run E s))"
proof -
  obtain s1 where g: "generate E s = (True, s1)" using assms by (cases "generate E s") auto
  with generate_ok(3) [OF assms] have "is_generated s1" by simp
  with g show ?thesis
    by (auto simp: run_def solve_def and_then_def engine_call_def engine_effect_def Let_def
        split: option.splits)
qed

lemma generate_when_generated:
  "is_generated s \<Longrightarrow> calls (snd (generate E s)) = calls s @ [IsGenerated]
     \<and> is_generated (snd (generate E s))"
  by (auto simp: generate_def generate_try_def and_then_def engine_call_def engine_effect_def Let_def
      split: option.splits)

lemma run_when_generated:
  assumes "is_generated s"
  shows "\<exists>xs. calls (snd (run E s)) = calls s @ xs
    \<and> set xs \<subseteq> {IsGenerated, IsUsingCP, CP_solve, Cplex_solve, PostProcess, HasProfiler, PrintReport}"
proof -
  obtain ok s1 where g: "generate E s = (ok, s1)" by (cases "generate E s")
  with generate_when_generated [OF assms, of E] have c1: "calls s1 = calls s @ [IsGenerated]"
    by simp
  with g show ?thesis
    by (auto simp: run_def solve_def and_then_def engine_call_def engine_effect_def Let_def
        split: option.splits)
qed

text \<open>
  C3, as amended. A generation that succeeds on a model not yet generated
  makes the calls of \<open>generation_calls\<close> once: the setting, one aggregate
  data source for the programmatic inputs, one data source per data file,
  and \<^verbatim>\<open>generate()\<close>. When the first \<^verbatim>\<open>run\<close> generated the model, a second
  \<^verbatim>\<open>run\<close>, whatever the engine answers then, makes no call of generation:
  it attaches no data source and does not call \<^verbatim>\<open>generate()\<close>.
\<close>

theorem generation_once:
  "(fst (generate E s) \<and> \<not> is_generated s
      \<longrightarrow> new_calls s (snd (generate E s)) = IsGenerated # generation_calls s)
   \<and> (fst (generate E s)
      \<longrightarrow> filter generation_call (new_calls (snd (run E s)) (snd (run E' (snd (run E s))))) = [])"
proof -
  have a: "new_calls s (snd (generate E s)) = IsGenerated # generation_calls s"
    if "fst (generate E s)" "\<not> is_generated s"
    using generate_ok(1) [OF that(1)] that(2) by (simp add: new_calls_def)
  have b: "filter generation_call (new_calls (snd (run E s)) (snd (run E' (snd (run E s))))) = []"
    if "fst (generate E s)"
  proof -
    from run_when_generated [OF run_keeps_generated [OF that], of E'] obtain xs where
      "calls (snd (run E' (snd (run E s)))) = calls (snd (run E s)) @ xs"
      "set xs \<subseteq> {IsGenerated, IsUsingCP, CP_solve, Cplex_solve, PostProcess, HasProfiler, PrintReport}"
      by blast
    then show ?thesis by (auto simp: new_calls_def filter_empty_conv)
  qed
  from a b show ?thesis by blast
qed

theorem generation_once_witness:
  "new_calls example_session (snd (generate quiet_engine example_session))
      = [IsGenerated, SetSkipWarnNeverUsedElements True,
         IloOplDataSource (PythonSource [(''Items'', RowList [[PInt 1, PStr ''a'', PFloat (Fin 10)]])]),
         AddDataSource (PythonSource [(''Items'', RowList [[PInt 1, PStr ''a'', PFloat (Fin 10)]])]),
         IloOplDataSource (FileSource ''more.dat''), AddDataSource (FileSource ''more.dat''),
         Generate]
   \<and> new_calls (snd (run quiet_engine example_session))
        (snd (run quiet_engine (snd (run quiet_engine example_session))))
      = [IsGenerated, IsUsingCP, Cplex_solve, PostProcess, HasProfiler]
   \<and> filter generation_call (new_calls (snd (run quiet_engine example_session))
        (snd (run quiet_engine (snd (run quiet_engine example_session))))) = []"
proof -
  have h: "fst (generate quiet_engine example_session)" "\<not> is_generated example_session"
    by (simp_all add: session_eval)
  have e: "IsGenerated # generation_calls example_session = [IsGenerated, SetSkipWarnNeverUsedElements True,
         IloOplDataSource (PythonSource [(''Items'', RowList [[PInt 1, PStr ''a'', PFloat (Fin 10)]])]),
         AddDataSource (PythonSource [(''Items'', RowList [[PInt 1, PStr ''a'', PFloat (Fin 10)]])]),
         IloOplDataSource (FileSource ''more.dat''), AddDataSource (FileSource ''more.dat''),
         Generate]"
    by (simp add: generation_calls_def session_eval)
  have r: "new_calls (snd (run quiet_engine example_session))
        (snd (run quiet_engine (snd (run quiet_engine example_session))))
      = [IsGenerated, IsUsingCP, Cplex_solve, PostProcess, HasProfiler]"
    by (simp add: session_eval)
  from generation_once [of quiet_engine example_session quiet_engine] h e r show ?thesis
    by simp
qed

text \<open>
  C3, as stated, fails at two sessions. With an engine that cannot open
  the data file \<open>more.dat\<close>, the first \<^verbatim>\<open>run\<close> attaches the programmatic
  inputs, fails before \<^verbatim>\<open>generate()\<close> and raises the usage error, and the
  second \<^verbatim>\<open>run\<close> attaches the programmatic inputs again. With an engine
  whose \<^verbatim>\<open>generate()\<close> raises, the second \<^verbatim>\<open>run\<close> attaches every input
  again and calls \<^verbatim>\<open>generate()\<close> again.
\<close>

theorem failed_generation_repeats:
  "fst (run missing_file_engine example_session) = Inl (ValueError ''model was not generated'')
   \<and> new_calls (snd (run missing_file_engine example_session))
        (snd (run missing_file_engine (snd (run missing_file_engine example_session))))
      = [IsGenerated, SetSkipWarnNeverUsedElements True,
         IloOplDataSource (PythonSource [(''Items'', RowList [[PInt 1, PStr ''a'', PFloat (Fin 10)]])]),
         AddDataSource (PythonSource [(''Items'', RowList [[PInt 1, PStr ''a'', PFloat (Fin 10)]])]),
         IloOplDataSource (FileSource ''more.dat'')]
   \<and> fst (run failing_engine example_session) = Inl (ValueError ''model was not generated'')
   \<and> new_calls (snd (run failing_engine example_session))
        (snd (run failing_engine (snd (run failing_engine example_session))))
      = [IsGenerated, SetSkipWarnNeverUsedElements True,
         IloOplDataSource (PythonSource [(''Items'', RowList [[PInt 1, PStr ''a'', PFloat (Fin 10)]])]),
         AddDataSource (PythonSource [(''Items'', RowList [[PInt 1, PStr ''a'', PFloat (Fin 10)]])]),
         IloOplDataSource (FileSource ''more.dat''), AddDataSource (FileSource ''more.dat''),
         Generate]"
  by (simp add: session_eval)

lemma do_calls_first:
  "\<exists>xs. calls (snd (do_calls E (c # cs) s)) = calls s @ c # xs"
proof -
  have grow: "\<exists>xs. calls (snd (do_calls E ds t)) = calls t @ xs" for ds t
  proof (induction ds arbitrary: t)
    case Nil
    then show ?case by simp
  next
    case (Cons d ds)
    obtain r t1 where c: "engine_call E d t = (r, t1)" by (cases "engine_call E d t")
    from Cons [of t1] engine_call_cases(1) [OF c] c show ?case
      by (cases r) auto
  qed
  obtain r s1 where c: "engine_call E c s = (r, s1)" by (cases "engine_call E c s")
  from grow [of cs s1] engine_call_cases(1) [OF c] c show ?thesis
    by (cases r) auto
qed

lemma generate_first_call:
  "\<exists>xs. calls (snd (generate E s)) = calls s @ IsGenerated # xs"
proof -
  let ?plan = "if is_generated s then [] else generation_calls s"
  from do_calls_first [of E IsGenerated ?plan s] obtain xs where
    "calls (snd (do_calls E (IsGenerated # ?plan) s)) = calls s @ IsGenerated # xs" by blast
  then show ?thesis
    by (cases "do_calls E (IsGenerated # ?plan) s")
       (auto simp: generate_def generate_try_eq as_True_def split: sum.splits)
qed

lemma export_enters_generation:
  assumes "drop (length name - 3) name \<in> {''sav'', ''.lp'', ''cpo'', ''mps''}"
  shows "take (Suc (length (calls s))) (calls (snd (export_model E name s))) = calls s @ [IsGenerated]"
proof -
  obtain ok s1 where g: "generate E s = (ok, s1)" by (cases "generate E s")
  from generate_first_call [of E s] g obtain xs where xs: "calls s1 = calls s @ IsGenerated # xs"
    by auto
  have "\<exists>ys. calls (snd (export_model E name s)) = calls s1 @ ys"
    using assms g
    by (auto simp: export_model_def and_then_def engine_call_def engine_effect_def Let_def
        split: option.splits)
  with xs show ?thesis by auto
qed

text \<open>
  C6. A name whose last three characters are not one of \<^verbatim>\<open>sav\<close>,
  \<^verbatim>\<open>.lp\<close>, \<^verbatim>\<open>cpo\<close>, \<^verbatim>\<open>mps\<close> makes \<^verbatim>\<open>export_model\<close> raise with the
  session as it was: no engine call has been made, nothing generated or
  exported. \<^verbatim>\<open>result.txt\<close> is such a name. A name with one of the four
  endings, \<^verbatim>\<open>result.sav\<close> among them, passes the check: the next engine
  call is the \<^verbatim>\<open>isGenerated()\<close> of \<^verbatim>\<open>__generate\<close>.
\<close>

theorem export_model_checks_extension:
  "(drop (length name - 3) name \<notin> {''sav'', ''.lp'', ''cpo'', ''mps''}
      \<longrightarrow> (\<exists>e. export_model E name s = (Inl e, s)))
   \<and> (\<exists>e. export_model E ''result.txt'' s = (Inl e, s))
   \<and> (drop (length name - 3) name \<in> {''sav'', ''.lp'', ''cpo'', ''mps''}
      \<longrightarrow> take (Suc (length (calls s))) (calls (snd (export_model E name s))) = calls s @ [IsGenerated])
   \<and> take (Suc (length (calls s))) (calls (snd (export_model E ''result.sav'' s))) = calls s @ [IsGenerated]"
proof -
  have a: "\<exists>e. export_model E name s = (Inl e, s)"
    if "drop (length name - 3) name \<notin> {''sav'', ''.lp'', ''cpo'', ''mps''}"
    using that by (simp add: export_model_def Let_def)
  have b: "\<exists>e. export_model E ''result.txt'' s = (Inl e, s)"
    by (simp add: export_model_def Let_def)
  have d: "take (Suc (length (calls s))) (calls (snd (export_model E ''result.sav'' s))) = calls s @ [IsGenerated]"
    by (rule export_enters_generation) simp
  from a b d export_enters_generation [of name s E] show ?thesis by blast
qed

theorem export_model_checks_extension_witness:
  "export_model quiet_engine ''result.txt'' new_session
     = (Inl (TypeError ''exceptions must derive from BaseException''), new_session)
   \<and> take (Suc (length (calls new_session))) (calls (snd (export_model quiet_engine ''result.sav'' new_session)))
     = [IsGenerated]
   \<and> calls (snd (export_model quiet_engine ''result.sav'' new_session))
     = [IsGenerated, SetSkipWarnNeverUsedElements True, Generate, IsUsingCP, Cplex_exportModel ''result.sav'']"
proof -
  have bad: "drop (length ''result.txt'' - 3) ''result.txt'' \<notin> {''sav'', ''.lp'', ''cpo'', ''mps''}"
    and good: "drop (length ''result.sav'' - 3) ''result.sav'' \<in> {''sav'', ''.lp'', ''cpo'', ''mps''}"
    by simp_all
  have e: "calls (snd (export_model quiet_engine ''result.sav'' new_session))
     = [IsGenerated, SetSkipWarnNeverUsedElements True, Generate, IsUsingCP, Cplex_exportModel ''result.sav'']"
    by (simp add: export_model_def session_eval)
  have t: "export_model quiet_engine ''result.txt'' new_session
     = (Inl (TypeError ''exceptions must derive from BaseException''), new_session)"
    by (simp add: export_model_def)
  from export_model_checks_extension [of "''result.txt''" quiet_engine new_session] bad
    export_model_checks_extension [of "''result.sav''" quiet_engine new_session] good e t
  show ?thesis by (simp add: new_session_def)
qed

lemma getElement_eq:
  "getElement E name s =
     (case raises E (GetElement name) of
        Some m \<Rightarrow> (Inl (EngineError m), s\<lparr>calls := calls s @ [GetElement name]\<rparr>)
      | None \<Rightarrow>
         (case elements E name of
            None \<Rightarrow> (Inl (EngineError (''no element '' @ name)), s\<lparr>calls := calls s @ [GetElement name]\<rparr>)
          | Some elt \<Rightarrow> (Inr elt, s\<lparr>calls := calls s @ [GetElement name]\<rparr>)))"
  by (simp add: getElement_def and_then_def engine_call_def engine_effect_def Let_def
      split: option.splits)

text \<open>
  C7. For a name that does not resolve to a tuple-set element (no element
  of that name, or an element of another kind) \<^verbatim>\<open>get_table\<close> raises
  \<^verbatim>\<open>ValueError\<close>; for a name that does not resolve to a decision
  expression \<^verbatim>\<open>get_kpi\<close> raises \<^verbatim>\<open>ValueError\<close>. For names that do
  resolve, \<^verbatim>\<open>get_table\<close> gives what \<^verbatim>\<open>__getTupleSet\<close> gives for the
  element's tuple set, and \<^verbatim>\<open>get_kpi\<close> the element's number.
\<close>

theorem lookups_raise_usage_error:
  "(\<not> resolves_to_tuple_set E name \<longrightarrow> (\<exists>m. fst (get_table d E name p s) = Inl (ValueError m)))
   \<and> (\<not> resolves_to_kpi E name \<longrightarrow> (\<exists>m. fst (get_kpi E name s) = Inl (ValueError m)))
   \<and> (resolves_to_tuple_set E name \<longrightarrow>
        (\<exists>elt. elements E name = Some elt \<and> fst (get_table d E name p s) = getTupleSet d (asTupleSet elt) p))
   \<and> (resolves_to_kpi E name \<longrightarrow>
        (\<exists>elt. elements E name = Some elt \<and> fst (get_kpi E name s) = Inr (asNum elt)))"
  by (auto simp: resolves_to_tuple_set_def resolves_to_kpi_def get_table_def get_kpi_def
      is_tuple_set_def getElement_eq and_then_def split: option.splits)

lemmas lookup_eval =
  get_table_def get_kpi_def is_tuple_set_def getElement_def and_then_def engine_call_def
  engine_effect_def Let_def model_engine_def quiet_engine_def result_element_def
  profit_element_def result_set_def

theorem lookups_raise_usage_error_witness:
  "fst (get_table 1000 model_engine ''profit'' True new_session) = Inl (ValueError ''profit is not a TupleSet'')
   \<and> fst (get_table 1000 model_engine ''absent'' True new_session)
       = Inl (ValueError ''Table absent does not exist in the OPL model.'')
   \<and> fst (get_kpi model_engine ''Result'' new_session) = Inl (ValueError ''Result is not a valid OPL KPI'')
   \<and> fst (get_kpi model_engine ''absent'' new_session) = Inl (ValueError ''absent is not a valid OPL KPI'')
   \<and> fst (get_kpi model_engine ''profit'' new_session) = Inr (Fin 42)
   \<and> fst (get_table 1000 model_engine ''Result'' False new_session)
       = Inr (Rows [[PInt 1, PStr ''a''], [PInt 2, PStr ''b'']])"
proof -
  have r: "\<not> resolves_to_tuple_set model_engine ''profit''"
    "\<not> resolves_to_tuple_set model_engine ''absent''"
    "\<not> resolves_to_kpi model_engine ''Result''"
    "\<not> resolves_to_kpi model_engine ''absent''"
    "resolves_to_kpi model_engine ''profit''"
    "resolves_to_tuple_set model_engine ''Result''"
    by (simp_all add: resolves_to_tuple_set_def resolves_to_kpi_def lookup_eval)
  have v: "fst (get_table 1000 model_engine ''profit'' True new_session) = Inl (ValueError ''profit is not a TupleSet'')"
    "fst (get_table 1000 model_engine ''absent'' True new_session)
       = Inl (ValueError ''Table absent does not exist in the OPL model.'')"
    "fst (get_kpi model_engine ''Result'' new_session) = Inl (ValueError ''Result is not a valid OPL KPI'')"
    "fst (get_kpi model_engine ''absent'' new_session) = Inl (ValueError ''absent is not a valid OPL KPI'')"
    "fst (get_kpi model_engine ''profit'' new_session) = Inr (Fin 42)"
    by (simp_all add: lookup_eval)
  have t: "getTupleSet 1000 result_set False = Inr (Rows [[PInt 1, PStr ''a''], [PInt 2, PStr ''b'']])"
    "elements model_engine ''Result'' = Some result_element" "asTupleSet result_element = result_set"
    by (simp_all add: getTupleSet_def zip_star_def kinds enumerate_eq_zip upt_rec lookup_eval)
  from lookups_raise_usage_error [of model_engine "''Result''" 1000 False new_session] r(6) t
  have "fst (get_table 1000 model_engine ''Result'' False new_session)
       = Inr (Rows [[PInt 1, PStr ''a''], [PInt 2, PStr ''b'']])"
    by auto
  with v lookups_raise_usage_error [of model_engine "''profit''" 1000 True new_session] r
  show ?thesis by simp
qed

lemma read_stats_quiet:
  "\<forall>c. raises E c = None \<Longrightarrow> \<exists>ret' s'. read_stats E gs ret s = (Inr ret', s')"
  by (induction gs arbitrary: ret s) (auto simp: engine_call_def Let_def)

lemma quality_loop_quiet:
  "\<forall>c. raises E c = None \<Longrightarrow> \<exists>ret' s'. quality_loop E js ret s = (Inr ret', s')"
  by (induction js arbitrary: ret s) (auto simp: engine_call_def Let_def)

lemma stats_cp:
  assumes "isUsingCP E" "raises E IsUsingCP = None" "cplex_stats_cache s = None"
  shows "fst (get_cplex_stats E s) = Inl (ValueError ''Cannot CPLEX specific method use with CPO'')"
    "cplex_stats_cache (snd (get_cplex_stats E s)) = None"
  using assms
  by (simp_all add: get_cplex_stats_def and_then_def engine_call_def engine_effect_def Let_def)

lemma quality_cp:
  assumes "isUsingCP E" "raises E IsUsingCP = None" "cplex_quality_cache s = None"
  shows "fst (get_cplex_quality E s) = Inl (ValueError ''Cannot CPLEX specific method use with CPO'')"
    "cplex_quality_cache (snd (get_cplex_quality E s)) = None"
  using assms
  by (simp_all add: get_cplex_quality_def and_then_def engine_call_def engine_effect_def Let_def)

lemma stats_cached:
  assumes "fst (get_cplex_stats E s) = Inr m"
  shows "cplex_stats_cache (snd (get_cplex_stats E s)) = Some m"
  using assms
  by (auto simp: get_cplex_stats_def and_then_def split: option.splits prod.splits sum.splits if_splits)

lemma quality_cached:
  assumes "fst (get_cplex_quality E s) = Inr m"
  shows "cplex_quality_cache (snd (get_cplex_quality E s)) = Some m"
  using assms
  by (auto simp: get_cplex_quality_def and_then_def split: option.splits prod.splits sum.splits if_splits)

lemma stats_from_cache:
  "cplex_stats_cache s = Some m \<Longrightarrow> get_cplex_stats E s = (Inr m, s)"
  by (simp add: get_cplex_stats_def)

lemma quality_from_cache:
  "cplex_quality_cache s = Some m \<Longrightarrow> get_cplex_quality E s = (Inr m, s)"
  by (simp add: get_cplex_quality_def)

lemma stats_computed:
  assumes "\<not> isUsingCP E" "\<forall>c. raises E c = None"
  shows "\<exists>m. fst (get_cplex_stats E s) = Inr m"
proof (cases "cplex_stats_cache s")
  case None
  let ?s1 = "s\<lparr>calls := calls s @ [IsUsingCP]\<rparr>"
  from read_stats_quiet [OF assms(2)] obtain r1 s2 where
    a: "read_stats E stat_getters [] ?s1 = (Inr r1, s2)" by blast
  let ?s3 = "s2\<lparr>calls := calls s2 @ [IsMIP]\<rparr>"
  from read_stats_quiet [OF assms(2)] obtain r2 s4 where
    b: "read_stats E mip_getters r1 ?s3 = (Inr r2, s4)" by blast
  from None assms a b show ?thesis
    by (simp add: get_cplex_stats_def and_then_def engine_call_def engine_effect_def Let_def)
next
  case (Some m)
  then show ?thesis by (simp add: get_cplex_stats_def)
qed

lemma quality_computed:
  assumes "\<not> isUsingCP E" "\<forall>c. raises E c = None"
  shows "\<exists>m. fst (get_cplex_quality E s) = Inr m"
proof (cases "cplex_quality_cache s")
  case None
  let ?s2 = "s\<lparr>calls := calls s @ [IsUsingCP, GetQualityEnumSize]\<rparr>"
  from quality_loop_quiet [OF assms(2)] obtain r1 s3 where
    a: "quality_loop E [0..<qualityEnumSize E] [] ?s2 = (Inr r1, s3)" by blast
  from None assms a show ?thesis
    by (simp add: get_cplex_quality_def and_then_def engine_call_def engine_effect_def Let_def)
next
  case (Some m)
  then show ?thesis by (simp add: get_cplex_quality_def)
qed

lemma generate_caches:
  "cplex_stats_cache (snd (generate E s)) = cplex_stats_cache s"
  "cplex_quality_cache (snd (generate E s)) = cplex_quality_cache s"
  using do_calls_fields(5,6) [of E "IsGenerated # (if is_generated s then [] else generation_calls s)" s]
  by (cases "do_calls E (IsGenerated # (if is_generated s then [] else generation_calls s)) s";
      auto simp: generate_def generate_try_eq as_True_def split: sum.splits)+

lemma run_caches:
  "cplex_stats_cache (snd (run E s)) = cplex_stats_cache s"
  "cplex_quality_cache (snd (run E s)) = cplex_quality_cache s"
  using generate_caches [of E s]
  by (cases "generate E s";
      auto simp: run_def solve_def and_then_def engine_call_def engine_effect_def Let_def
        split: option.splits)+

lemma keys_distinct: "distinct (map fst (stat_getters @ mip_getters))"
  by (simp add: stat_getters_def mip_getters_def)

lemma update_fresh: "k \<notin> fst ` set ret \<Longrightarrow> AList.update k v ret = ret @ [(k, v)]"
  by (induction ret) auto

lemma read_stats_closed:
  assumes "\<forall>c. raises E c = None"
  shows "distinct (map fst ret @ map fst gs) \<Longrightarrow>
    read_stats E gs ret s =
      (Inr (ret @ map (\<lambda>(k, g). (k, cplex_value E g)) gs),
       s\<lparr>calls := calls s @ map (\<lambda>(k, g). CplexGet g) gs\<rparr>)"
proof (induction gs arbitrary: ret s)
  case Nil
  then show ?case by simp
next
  case (Cons p gs)
  obtain k g where p: "p = (k, g)" by (cases p)
  from Cons.prems p have fresh: "k \<notin> fst ` set ret" by auto
  from Cons.prems p have d: "distinct (map fst (ret @ [(k, cplex_value E g)]) @ map fst gs)" by auto
  show ?case
    using assms p Cons.IH [OF d] update_fresh [OF fresh]
    by (simp add: engine_call_def engine_effect_def Let_def)
qed

lemma stats_first_read:
  assumes "\<not> isUsingCP E" "\<forall>c. raises E c = None" "cplex_stats_cache s = None"
  shows "get_cplex_stats E s =
    (Inr (stats_snapshot E),
     s\<lparr>calls := calls s @ stats_calls E, cplex_stats_cache := Some (stats_snapshot E)\<rparr>)"
proof -
  from keys_distinct have d1: "distinct (map fst ([] :: (string \<times> pyval) list) @ map fst stat_getters)"
    by simp
  have d2: "distinct (map fst (map (\<lambda>(k, g). (k, cplex_value E g)) stat_getters) @ map fst mip_getters)"
    using keys_distinct by (simp add: case_prod_beta comp_def)
  note r1 = read_stats_closed [OF assms(2) d1]
  note r2 = read_stats_closed [OF assms(2) d2]
  show ?thesis
    using assms
    by (simp add: get_cplex_stats_def and_then_def engine_call_def engine_effect_def Let_def
        r1 r2 stats_snapshot_def stats_calls_def)
qed

lemma quality_loop_closed:
  assumes "\<forall>c. raises E c = None"
  shows "quality_loop E js ret s =
    (Inr (fold (\<lambda>i ret. if kept E i then AList.update (qualityEnumName E i) (quality E i) ret else ret) js ret),
     s\<lparr>calls := calls s @
        concat (map (\<lambda>i. if i \<noteq> 10 \<and> i \<noteq> 11 then [GetQualityEnumName i, GetQuality i] else []) js)\<rparr>)"
  using assms
  by (induction js arbitrary: ret s)
     (simp_all add: engine_call_def engine_effect_def Let_def kept_def)

lemma quality_first_read:
  assumes "\<not> isUsingCP E" "\<forall>c. raises E c = None" "cplex_quality_cache s = None"
  shows "get_cplex_quality E s =
    (Inr (quality_snapshot E),
     s\<lparr>calls := calls s @ quality_calls E, cplex_quality_cache := Some (quality_snapshot E)\<rparr>)"
  using assms
  by (simp add: get_cplex_quality_def and_then_def engine_call_def engine_effect_def Let_def
      quality_loop_closed [OF assms(2)] quality_snapshot_def quality_calls_def)

text \<open>
  C8. On the constraint-programming backend, with nothing cached (as in a
  new session), \<^verbatim>\<open>cplex_stats\<close> and \<^verbatim>\<open>cplex_quality\<close> raise
  \<^verbatim>\<open>ValueError\<close> and leave nothing cached. On the CPLEX backend, with an
  engine that does not raise and nothing cached, the first read of
  \<^verbatim>\<open>cplex_stats\<close> asks the engine for every statistic once, in order, and
  returns and caches the mapping of every key to its value; the first read
  of \<^verbatim>\<open>cplex_quality\<close> asks for every metric but 10 and 11 and returns and
  caches the kept ones. Once either has returned a mapping, every later
  read returns that mapping and leaves the session as it is (no engine
  call), whatever the engine would answer then, also after a \<^verbatim>\<open>run\<close> in
  between.
\<close>

theorem cplex_snapshots:
  "(isUsingCP E \<and> raises E IsUsingCP = None \<and> cplex_stats_cache s = None \<longrightarrow>
      (\<exists>m. fst (get_cplex_stats E s) = Inl (ValueError m))
      \<and> cplex_stats_cache (snd (get_cplex_stats E s)) = None)
   \<and> (isUsingCP E \<and> raises E IsUsingCP = None \<and> cplex_quality_cache s = None \<longrightarrow>
      (\<exists>m. fst (get_cplex_quality E s) = Inl (ValueError m))
      \<and> cplex_quality_cache (snd (get_cplex_quality E s)) = None)
   \<and> (\<not> isUsingCP E \<and> (\<forall>c. raises E c = None) \<longrightarrow>
      (\<exists>m. fst (get_cplex_stats E s) = Inr m) \<and> (\<exists>m. fst (get_cplex_quality E s) = Inr m))
   \<and> (fst (get_cplex_stats E s) = Inr m \<longrightarrow>
      get_cplex_stats E' (snd (get_cplex_stats E s)) = (Inr m, snd (get_cplex_stats E s))
      \<and> fst (get_cplex_stats E' (snd (run E' (snd (get_cplex_stats E s))))) = Inr m)
   \<and> (fst (get_cplex_quality E s) = Inr q \<longrightarrow>
      get_cplex_quality E' (snd (get_cplex_quality E s)) = (Inr q, snd (get_cplex_quality E s))
      \<and> fst (get_cplex_quality E' (snd (run E' (snd (get_cplex_quality E s))))) = Inr q)
   \<and> (\<not> isUsingCP E \<and> (\<forall>c. raises E c = None) \<and> cplex_stats_cache s = None \<longrightarrow>
      get_cplex_stats E s =
        (Inr (stats_snapshot E),
         s\<lparr>calls := calls s @ stats_calls E, cplex_stats_cache := Some (stats_snapshot E)\<rparr>))
   \<and> (\<not> isUsingCP E \<and> (\<forall>c. raises E c = None) \<and> cplex_quality_cache s = None \<longrightarrow>
      get_cplex_quality E s =
        (Inr (quality_snapshot E),
         s\<lparr>calls := calls s @ quality_calls E, cplex_quality_cache := Some (quality_snapshot E)\<rparr>))"
proof -
  have s2: "get_cplex_stats E' (snd (get_cplex_stats E s)) = (Inr m, snd (get_cplex_stats E s))
      \<and> fst (get_cplex_stats E' (snd (run E' (snd (get_cplex_stats E s))))) = Inr m"
    if "fst (get_cplex_stats E s) = Inr m"
    using stats_cached [OF that] stats_from_cache [of _ m E'] run_caches(1) [of E' "snd (get_cplex_stats E s)"]
    by simp
  have q2: "get_cplex_quality E' (snd (get_cplex_quality E s)) = (Inr q, snd (get_cplex_quality E s))
      \<and> fst (get_cplex_quality E' (snd (run E' (snd (get_cplex_quality E s))))) = Inr q"
    if "fst (get_cplex_quality E s) = Inr q"
    using quality_cached [OF that] quality_from_cache [of _ q E'] run_caches(2) [of E' "snd (get_cplex_quality E s)"]
    by simp
  from s2 q2 stats_cp [of E s] quality_cp [of E s] stats_computed [of E s] quality_computed [of E s]
    stats_first_read [of E s] quality_first_read [of E s]
  show ?thesis by blast
qed

theorem cplex_snapshots_witness:
  "fst (get_cplex_stats (quiet_engine\<lparr>isUsingCP := True\<rparr>) new_session)
      = Inl (ValueError ''Cannot CPLEX specific method use with CPO'')
   \<and> fst (get_cplex_quality (quiet_engine\<lparr>isUsingCP := True\<rparr>) new_session)
      = Inl (ValueError ''Cannot CPLEX specific method use with CPO'')
   \<and> (\<exists>m. fst (get_cplex_stats quiet_engine new_session) = Inr m
        \<and> get_cplex_stats failing_engine (snd (get_cplex_stats quiet_engine new_session))
            = (Inr m, snd (get_cplex_stats quiet_engine new_session)))
   \<and> (\<exists>q. fst (get_cplex_quality quality_engine new_session) = Inr q
        \<and> get_cplex_quality quiet_engine (snd (get_cplex_quality quality_engine new_session))
            = (Inr q, snd (get_cplex_quality quality_engine new_session)))
   \<and> fst (get_cplex_stats stats_engine new_session) =
       Inr [(''Niterations'', PInt 0), (''NbarrierIterations'', PInt 0),
            (''NsiftingIterations'', PInt 0), (''NsiftingPhaseOneIterations'', PInt 0),
            (''Ncols'', PInt 3), (''Nrows'', PInt 2), (''NQCs'', PInt 0), (''NSOSs'', PInt 0),
            (''Nindicators'', PInt 0), (''NLCs'', PInt 0), (''NUCs'', PInt 0), (''NNZs'', PInt 0),
            (''NintVars'', PInt 0), (''NbinVars'', PInt 0), (''NsemiContVars'', PInt 0),
            (''NsemiIntVars'', PInt 0), (''BestObjValue'', PInt 0), (''IncumbentNode'', PInt 0),
            (''NprimalSuperbasics'', PInt 0), (''NdualSuperbasics'', PInt 0),
            (''NphaseOneIterations'', PInt 0), (''Nnodes'', PInt 0), (''NnodesLeft'', PInt 0),
            (''NcrossPPush'', PInt 0), (''NcrossPExch'', PInt 0), (''NcrossDPush'', PInt 0),
            (''NcrossDExch'', PInt 0), (''isPrimalFeasible'', PBool True),
            (''isDualFeasible'', PInt 0), (''CplexStatus'', PInt 0),
            (''NMIPStarts'', PInt 0), (''MIPRelativeGap'', PInt 0), (''Cutoff'', PFloat PosInf)]
   \<and> length (calls (snd (get_cplex_stats stats_engine new_session))) = 35
   \<and> calls (snd (get_cplex_stats stats_engine new_session)) =
      IsUsingCP # map CplexGet
        [''getNiterations'', ''getNbarrierIterations'', ''getNsiftingIterations'',
         ''getNsiftingPhaseOneIterations'', ''getNcols'', ''getNrows'', ''getNQCs'',
         ''getNSOSs'', ''getNindicators'', ''getNLCs'', ''getNUCs'', ''getNNZs'',
         ''getNintVars'', ''getNbinVars'', ''getNsemiContVars'', ''getNsemiIntVars'',
         ''getBestObjValue'', ''getIncumbentNode'', ''getNprimalSuperbasics'',
         ''getNdualSuperbasics'', ''getNphaseOneIterations'', ''getNnodes'',
         ''getNnodesLeft'', ''getNcrossPPush'', ''getNcrossPExch'', ''getNcrossDPush'',
         ''getNcrossDExch'', ''isPrimalFeasible'', ''isDualFeasible'', ''getCplexStatus_asInt'']
      @ IsMIP # map CplexGet
        [''getNMIPStarts'', ''getMIPRelativeGap'', ''getCutoff'']
   \<and> calls (snd (get_cplex_stats stats_engine
        (snd (get_cplex_stats stats_engine new_session))))
      = calls (snd (get_cplex_stats stats_engine new_session))
   \<and> get_cplex_quality quality_engine new_session =
       (Inr [([], Fin 1), (''qq'', Fin 1), (''qqq'', Fin 1), (''qqqq'', Fin 1), (''qqqqq'', Fin 1),
             (''qqqqqq'', Fin 1), (''qqqqqqq'', Fin 1), (''qqqqqqqq'', Fin 1),
             (''qqqqqqqqq'', Fin 1)],
        new_session\<lparr>calls :=
          [IsUsingCP, GetQualityEnumSize,
           GetQualityEnumName 0, GetQuality 0, GetQualityEnumName 1, GetQuality 1,
           GetQualityEnumName 2, GetQuality 2, GetQualityEnumName 3, GetQuality 3,
           GetQualityEnumName 4, GetQuality 4, GetQualityEnumName 5, GetQuality 5,
           GetQualityEnumName 6, GetQuality 6, GetQualityEnumName 7, GetQuality 7,
           GetQualityEnumName 8, GetQuality 8, GetQualityEnumName 9, GetQuality 9],
          cplex_quality_cache :=
            Some [([], Fin 1), (''qq'', Fin 1), (''qqq'', Fin 1), (''qqqq'', Fin 1),
                  (''qqqqq'', Fin 1), (''qqqqqq'', Fin 1), (''qqqqqqq'', Fin 1),
                  (''qqqqqqqq'', Fin 1), (''qqqqqqqqq'', Fin 1)]\<rparr>)"
proof -
  let ?cp = "quiet_engine\<lparr>isUsingCP := True\<rparr>"
  have cplex: "\<not> isUsingCP quiet_engine" "\<forall>c. raises quiet_engine c = None"
    "\<not> isUsingCP quality_engine" "\<forall>c. raises quality_engine c = None"
    "\<not> isUsingCP stats_engine" "\<forall>c. raises stats_engine c = None"
    "cplex_stats_cache new_session = None" "cplex_quality_cache new_session = None"
    by (simp_all add: quiet_engine_def quality_engine_def stats_engine_def new_session_def)
  have a: "fst (get_cplex_stats ?cp new_session) = Inl (ValueError ''Cannot CPLEX specific method use with CPO'')"
    "fst (get_cplex_quality ?cp new_session) = Inl (ValueError ''Cannot CPLEX specific method use with CPO'')"
    by (simp_all add: get_cplex_stats_def get_cplex_quality_def and_then_def engine_call_def
        engine_effect_def Let_def quiet_engine_def new_session_def)
  from cplex_snapshots [of quiet_engine new_session _ failing_engine] cplex(1,2)
  have b: "\<exists>m. fst (get_cplex_stats quiet_engine new_session) = Inr m
        \<and> get_cplex_stats failing_engine (snd (get_cplex_stats quiet_engine new_session))
            = (Inr m, snd (get_cplex_stats quiet_engine new_session))"
    by blast
  from cplex_snapshots [of quality_engine new_session _ quiet_engine] cplex(3,4)
  have c: "\<exists>q. fst (get_cplex_quality quality_engine new_session) = Inr q
        \<and> get_cplex_quality quiet_engine (snd (get_cplex_quality quality_engine new_session))
            = (Inr q, snd (get_cplex_quality quality_engine new_session))"
    by blast
  from cplex_snapshots [of stats_engine new_session] cplex(5,6,7)
  have d0: "get_cplex_stats stats_engine new_session =
        (Inr (stats_snapshot stats_engine),
         new_session\<lparr>calls := calls new_session @ stats_calls stats_engine,
           cplex_stats_cache := Some (stats_snapshot stats_engine)\<rparr>)"
    by blast
  have snap: "stats_snapshot stats_engine =
            [(''Niterations'', PInt 0), (''NbarrierIterations'', PInt 0),
            (''NsiftingIterations'', PInt 0), (''NsiftingPhaseOneIterations'', PInt 0),
            (''Ncols'', PInt 3), (''Nrows'', PInt 2), (''NQCs'', PInt 0), (''NSOSs'', PInt 0),
            (''Nindicators'', PInt 0), (''NLCs'', PInt 0), (''NUCs'', PInt 0), (''NNZs'', PInt 0),
            (''NintVars'', PInt 0), (''NbinVars'', PInt 0), (''NsemiContVars'', PInt 0),
            (''NsemiIntVars'', PInt 0), (''BestObjValue'', PInt 0), (''IncumbentNode'', PInt 0),
            (''NprimalSuperbasics'', PInt 0), (''NdualSuperbasics'', PInt 0),
            (''NphaseOneIterations'', PInt 0), (''Nnodes'', PInt 0), (''NnodesLeft'', PInt 0),
            (''NcrossPPush'', PInt 0), (''NcrossPExch'', PInt 0), (''NcrossDPush'', PInt 0),
            (''NcrossDExch'', PInt 0), (''isPrimalFeasible'', PBool True),
            (''isDualFeasible'', PInt 0), (''CplexStatus'', PInt 0),
            (''NMIPStarts'', PInt 0), (''MIPRelativeGap'', PInt 0), (''Cutoff'', PFloat PosInf)]"
    by (simp add: stats_snapshot_def stat_getters_def mip_getters_def stats_engine_def quiet_engine_def)
  have len: "length (stats_calls stats_engine) = 35"
    by (simp add: stats_calls_def stat_getters_def mip_getters_def stats_engine_def quiet_engine_def)
  from d0 snap len have d: "fst (get_cplex_stats stats_engine new_session) = Inr (stats_snapshot stats_engine)"
    "length (calls (snd (get_cplex_stats stats_engine new_session))) = 35"
    by (simp_all add: new_session_def)
  from cplex_snapshots [of stats_engine new_session "stats_snapshot stats_engine" stats_engine] d(1)
  have again: "calls (snd (get_cplex_stats stats_engine (snd (get_cplex_stats stats_engine new_session))))
      = calls (snd (get_cplex_stats stats_engine new_session))"
    by simp
  from cplex_snapshots [of quality_engine new_session] cplex(3,4,8)
  have e0: "get_cplex_quality quality_engine new_session =
        (Inr (quality_snapshot quality_engine),
         new_session\<lparr>calls := calls new_session @ quality_calls quality_engine,
           cplex_quality_cache := Some (quality_snapshot quality_engine)\<rparr>)"
    by blast
  have qsnap: "quality_snapshot quality_engine =
      [([], Fin 1), (''qq'', Fin 1), (''qqq'', Fin 1), (''qqqq'', Fin 1), (''qqqqq'', Fin 1),
       (''qqqqqq'', Fin 1), (''qqqqqqq'', Fin 1), (''qqqqqqqq'', Fin 1), (''qqqqqqqqq'', Fin 1)]"
    by (simp add: quality_snapshot_def kept_def quality_engine_def quiet_engine_def upt_rec
        eval_nat_numeral)
  have qcalls: "quality_calls quality_engine =
          [IsUsingCP, GetQualityEnumSize,
           GetQualityEnumName 0, GetQuality 0, GetQualityEnumName 1, GetQuality 1,
           GetQualityEnumName 2, GetQuality 2, GetQualityEnumName 3, GetQuality 3,
           GetQualityEnumName 4, GetQuality 4, GetQualityEnumName 5, GetQuality 5,
           GetQualityEnumName 6, GetQuality 6, GetQualityEnumName 7, GetQuality 7,
           GetQualityEnumName 8, GetQuality 8, GetQualityEnumName 9, GetQuality 9]"
    by (simp add: quality_calls_def quality_engine_def quiet_engine_def upt_rec)
  from e0 qsnap qcalls have e: "get_cplex_quality quality_engine new_session =
       (Inr [([], Fin 1), (''qq'', Fin 1), (''qqq'', Fin 1), (''qqqq'', Fin 1), (''qqqqq'', Fin 1),
             (''qqqqqq'', Fin 1), (''qqqqqqq'', Fin 1), (''qqqqqqqq'', Fin 1),
             (''qqqqqqqqq'', Fin 1)],
        new_session\<lparr>calls :=
          [IsUsingCP, GetQualityEnumSize,
           GetQualityEnumName 0, GetQuality 0, GetQualityEnumName 1, GetQuality 1,
           GetQualityEnumName 2, GetQuality 2, GetQualityEnumName 3, GetQuality 3,
           GetQualityEnumName 4, GetQuality 4, GetQualityEnumName 5, GetQuality 5,
           GetQualityEnumName 6, GetQuality 6, GetQualityEnumName 7, GetQuality 7,
           GetQualityEnumName 8, GetQuality 8, GetQualityEnumName 9, GetQuality 9],
          cplex_quality_cache :=
            Some [([], Fin 1), (''qq'', Fin 1), (''qqq'', Fin 1), (''qqqq'', Fin 1),
                  (''qqqqq'', Fin 1), (''qqqqqq'', Fin 1), (''qqqqqqq'', Fin 1),
                  (''qqqqqqqq'', Fin 1), (''qqqqqqqqq'', Fin 1)]\<rparr>)"
    by (simp add: new_session_def)
  from d(1) snap have d': "fst (get_cplex_stats stats_engine new_session) = Inr
            [(''Niterations'', PInt 0), (''NbarrierIterations'', PInt 0),
            (''NsiftingIterations'', PInt 0), (''NsiftingPhaseOneIterations'', PInt 0),
            (''Ncols'', PInt 3), (''Nrows'', PInt 2), (''NQCs'', PInt 0), (''NSOSs'', PInt 0),
            (''Nindicators'', PInt 0), (''NLCs'', PInt 0), (''NUCs'', PInt 0), (''NNZs'', PInt 0),
            (''NintVars'', PInt 0), (''NbinVars'', PInt 0), (''NsemiContVars'', PInt 0),
            (''NsemiIntVars'', PInt 0), (''BestObjValue'', PInt 0), (''IncumbentNode'', PInt 0),
            (''NprimalSuperbasics'', PInt 0), (''NdualSuperbasics'', PInt 0),
            (''NphaseOneIterations'', PInt 0), (''Nnodes'', PInt 0), (''NnodesLeft'', PInt 0),
            (''NcrossPPush'', PInt 0), (''NcrossPExch'', PInt 0), (''NcrossDPush'', PInt 0),
            (''NcrossDExch'', PInt 0), (''isPrimalFeasible'', PBool True),
            (''isDualFeasible'', PInt 0), (''CplexStatus'', PInt 0),
            (''NMIPStarts'', PInt 0), (''MIPRelativeGap'', PInt 0), (''Cutoff'', PFloat PosInf)]"
    by simp
  have cs: "stats_calls stats_engine =
      IsUsingCP # map CplexGet
        [''getNiterations'', ''getNbarrierIterations'', ''getNsiftingIterations'',
         ''getNsiftingPhaseOneIterations'', ''getNcols'', ''getNrows'', ''getNQCs'',
         ''getNSOSs'', ''getNindicators'', ''getNLCs'', ''getNUCs'', ''getNNZs'',
         ''getNintVars'', ''getNbinVars'', ''getNsemiContVars'', ''getNsemiIntVars'',
         ''getBestObjValue'', ''getIncumbentNode'', ''getNprimalSuperbasics'',
         ''getNdualSuperbasics'', ''getNphaseOneIterations'', ''getNnodes'',
         ''getNnodesLeft'', ''getNcrossPPush'', ''getNcrossPExch'', ''getNcrossDPush'',
         ''getNcrossDExch'', ''isPrimalFeasible'', ''isDualFeasible'', ''getCplexStatus_asInt'']
      @ IsMIP # map CplexGet
        [''getNMIPStarts'', ''getMIPRelativeGap'', ''getCutoff'']"
    by (simp add: stats_calls_def stat_getters_def mip_getters_def stats_engine_def quiet_engine_def)
  from d0 cs have d3: "calls (snd (get_cplex_stats stats_engine new_session)) =
      IsUsingCP # map CplexGet
        [''getNiterations'', ''getNbarrierIterations'', ''getNsiftingIterations'',
         ''getNsiftingPhaseOneIterations'', ''getNcols'', ''getNrows'', ''getNQCs'',
         ''getNSOSs'', ''getNindicators'', ''getNLCs'', ''getNUCs'', ''getNNZs'',
         ''getNintVars'', ''getNbinVars'', ''getNsemiContVars'', ''getNsemiIntVars'',
         ''getBestObjValue'', ''getIncumbentNode'', ''getNprimalSuperbasics'',
         ''getNdualSuperbasics'', ''getNphaseOneIterations'', ''getNnodes'',
         ''getNnodesLeft'', ''getNcrossPPush'', ''getNcrossPExch'', ''getNcrossDPush'',
         ''getNcrossDExch'', ''isPrimalFeasible'', ''isDualFeasible'', ''getCplexStatus_asInt'']
      @ IsMIP # map CplexGet
        [''getNMIPStarts'', ''getMIPRelativeGap'', ''getCutoff'']"
    by (simp add: new_session_def)
  from a b c d' d(2) d3 again e show ?thesis by blast
qed

lemma quality_loop_entries:
  assumes "\<forall>c. raises E c = None" "distinct js" "inj_on (qualityEnumName E) (set js)"
  shows "\<exists>ret' s'. quality_loop E js ret s = (Inr ret', s')
     \<and> (\<forall>i \<in> set js. map_of ret' (qualityEnumName E i) =
           (if kept E i then Some (quality E i) else map_of ret (qualityEnumName E i)))
     \<and> (\<forall>k. k \<notin> qualityEnumName E ` set js \<longrightarrow> map_of ret' k = map_of ret k)"
  using assms(2,3)
proof (induction js arbitrary: ret s)
  case Nil
  then show ?case by simp
next
  case (Cons j js)
  let ?ret1 = "if kept E j then AList.update (qualityEnumName E j) (quality E j) ret else ret"
  let ?s1 = "if j \<noteq> 10 \<and> j \<noteq> 11 then s\<lparr>calls := calls s @ [GetQualityEnumName j, GetQuality j]\<rparr> else s"
  have step: "quality_loop E (j # js) ret s = quality_loop E js ?ret1 ?s1"
    using assms(1) by (simp add: engine_call_def engine_effect_def Let_def kept_def)
  from Cons.prems have d: "distinct js" and inj: "inj_on (qualityEnumName E) (set js)"
    and fresh: "qualityEnumName E j \<notin> qualityEnumName E ` set js"
    by auto
  from Cons.IH [OF d inj, of ?ret1 ?s1] obtain ret' s' where
    r: "quality_loop E js ?ret1 ?s1 = (Inr ret', s')"
    and inside: "\<forall>i \<in> set js. map_of ret' (qualityEnumName E i) =
           (if kept E i then Some (quality E i) else map_of ?ret1 (qualityEnumName E i))"
    and outside: "\<forall>k. k \<notin> qualityEnumName E ` set js \<longrightarrow> map_of ret' k = map_of ?ret1 k"
    by blast
  have head: "map_of ret' (qualityEnumName E j) =
      (if kept E j then Some (quality E j) else map_of ret (qualityEnumName E j))"
    using outside fresh by (simp add: update_conv')
  have tail: "map_of ret' (qualityEnumName E i) =
      (if kept E i then Some (quality E i) else map_of ret (qualityEnumName E i))"
    if "i \<in> set js" for i
  proof -
    from that fresh have "qualityEnumName E i \<noteq> qualityEnumName E j"
      by (metis imageI)
    with inside that show ?thesis by (simp add: update_conv')
  qed
  have out: "map_of ret' k = map_of ret k" if "k \<notin> qualityEnumName E ` set (j # js)" for k
    using outside that by (auto simp: update_conv')
  from step r head tail out show ?case by auto
qed

text \<open>
  C10. On the CPLEX backend, with nothing cached, an engine that does not
  raise and metric names that differ from index to index:
  \<^verbatim>\<open>cplex_quality\<close> returns a mapping which, for every index \<open>i\<close> of the
  enumeration, holds the name of \<open>i\<close> (with the metric's value) exactly
  when \<open>i\<close> is neither 10 nor 11 and the value is not positive infinity.
\<close>

theorem cplex_quality_entries:
  assumes "cplex_quality_cache s = None" "\<not> isUsingCP E" "\<forall>c. raises E c = None"
    "inj_on (qualityEnumName E) {..<qualityEnumSize E}" "i < qualityEnumSize E"
  shows "\<exists>m. fst (get_cplex_quality E s) = Inr m
     \<and> map_of m (qualityEnumName E i) =
         (if i \<noteq> 10 \<and> i \<noteq> 11 \<and> quality E i \<noteq> PosInf then Some (quality E i) else None)
     \<and> (qualityEnumName E i \<in> fst ` set m \<longleftrightarrow> i \<noteq> 10 \<and> i \<noteq> 11 \<and> quality E i \<noteq> PosInf)"
proof -
  let ?s2 = "s\<lparr>calls := calls s @ [IsUsingCP, GetQualityEnumSize]\<rparr>"
  have inj: "inj_on (qualityEnumName E) (set [0..<qualityEnumSize E])"
    using assms(4) by (simp add: lessThan_atLeast0)
  from quality_loop_entries [OF assms(3) distinct_upt inj, of "[]" ?s2] obtain m s3 where
    r: "quality_loop E [0..<qualityEnumSize E] [] ?s2 = (Inr m, s3)"
    and e: "\<forall>i \<in> set [0..<qualityEnumSize E]. map_of m (qualityEnumName E i) =
           (if kept E i then Some (quality E i) else map_of [] (qualityEnumName E i))"
    by blast
  have res: "fst (get_cplex_quality E s) = Inr m"
    using assms(1-3) r
    by (simp add: get_cplex_quality_def and_then_def engine_call_def engine_effect_def Let_def)
  from e assms(5) have v: "map_of m (qualityEnumName E i) =
      (if i \<noteq> 10 \<and> i \<noteq> 11 \<and> quality E i \<noteq> PosInf then Some (quality E i) else None)"
    by (simp add: kept_def)
  have "qualityEnumName E i \<in> fst ` set m \<longleftrightarrow> map_of m (qualityEnumName E i) \<noteq> None"
    by (simp add: map_of_eq_None_iff)
  with v have "qualityEnumName E i \<in> fst ` set m \<longleftrightarrow> i \<noteq> 10 \<and> i \<noteq> 11 \<and> quality E i \<noteq> PosInf"
    by simp
  with res v show ?thesis by blast
qed

theorem cplex_quality_entries_witness:
  "(\<exists>m. fst (get_cplex_quality quality_engine new_session) = Inr m
      \<and> map_of m ''qq'' = Some (Fin 1) \<and> ''qq'' \<in> fst ` set m)
   \<and> (\<exists>m. fst (get_cplex_quality quality_engine new_session) = Inr m
      \<and> map_of m ''q'' = None \<and> ''q'' \<notin> fst ` set m)
   \<and> (\<exists>m. fst (get_cplex_quality quality_engine new_session) = Inr m
      \<and> map_of m ''qqqqqqqqqq'' = None \<and> ''qqqqqqqqqq'' \<notin> fst ` set m)"
proof -
  have h: "cplex_quality_cache new_session = None" "\<not> isUsingCP quality_engine"
    "\<forall>c. raises quality_engine c = None"
    by (simp_all add: quiet_engine_def quality_engine_def new_session_def)
  have inj: "inj_on (qualityEnumName quality_engine) {..<qualityEnumSize quality_engine}"
    by (auto simp: quality_engine_def quiet_engine_def inj_on_def dest: arg_cong [where f = length])
  have n: "qualityEnumName quality_engine 2 = ''qq''" "qualityEnumName quality_engine 1 = ''q''"
    "qualityEnumName quality_engine 10 = ''qqqqqqqqqq''"
    "quality quality_engine 2 = Fin 1" "quality quality_engine 1 = PosInf"
    "2 < qualityEnumSize quality_engine" "1 < qualityEnumSize quality_engine"
    "10 < qualityEnumSize quality_engine"
    by (simp_all add: quality_engine_def quiet_engine_def eval_nat_numeral)
  from cplex_quality_entries [OF h inj n(6)] cplex_quality_entries [OF h inj n(7)]
    cplex_quality_entries [OF h inj n(8)] n(1-5)
  show ?thesis by simp
qed

end
